theory Spec2Isabelle
  imports Complex_Main "HOL-Library.Log_Nat"
begin

section \<open>Numbers and their text\<close>

text \<open>
  The script \<^verbatim>\<open>pyx.py\<close> measures time in Python floats and rounds them with
  \<^verbatim>\<open>round\<close>. A float is taken here as the rational number that is its exact value, and
  \<^verbatim>\<open>round\<close> as rounding to the nearest integer with ties going to the even neighbour, which
  is what Python does on the exact value of its argument. The arithmetic on floats is
  rounded after every operation, as below.
\<close>

definition py_round :: "rat \<Rightarrow> int" where
  "py_round x =
     (let f = \<lfloor>x\<rfloor>; d = x - of_int f in
      if d < 1 / 2 then f else if 1 / 2 < d then f + 1 else if even f then f else f + 1)"

text \<open>\<^verbatim>\<open>round(x, 1)\<close>: one decimal place.\<close>

definition round1 :: "rat \<Rightarrow> rat" where
  "round1 x = of_int (py_round (x * 10)) / 10"

subsection \<open>Float arithmetic\<close>

text \<open>
  Python's floats are IEEE 754 doubles: every operation returns the double nearest to the
  exact result, ties to the even mantissa. \<open>binade x\<close> is the exponent of \<open>x\<close>, the
  integer \<open>k\<close> with \<open>2 ^ k \<le> \<bar>x\<bar> < 2 ^ (k + 1)\<close>, and \<open>fl x\<close> is the nearest number with
  a 53-bit mantissa. Overflow and subnormal numbers are left aside: the script works on
  counts of files and on seconds.
\<close>

definition two_pow :: "int \<Rightarrow> rat" where
  "two_pow k = (if 0 \<le> k then 2 ^ nat k else 1 / 2 ^ nat (- k))"

definition binade :: "rat \<Rightarrow> int" where
  "binade x =
     (case quotient_of \<bar>x\<bar> of
        (p, q) \<Rightarrow> (let k = bitlen p - bitlen q in if two_pow k \<le> \<bar>x\<bar> then k else k - 1))"

definition fl :: "rat \<Rightarrow> rat" where
  "fl x = (if x = 0 then 0 else (let u = two_pow (binade x - 52) in of_int (py_round (x / u)) * u))"

text \<open>
  \<^verbatim>\<open>a - b\<close>, \<^verbatim>\<open>a * b\<close> and \<^verbatim>\<open>a / b\<close> on floats, or on a float and an int. An operand is
  read as the float nearest to it, which changes nothing on a float and on the counts of
  files, and makes a float of a clock reading that is given in decimal.
\<close>

definition float_sub :: "rat \<Rightarrow> rat \<Rightarrow> rat" where
  "float_sub a b = fl (fl a - fl b)"

definition float_mul :: "rat \<Rightarrow> rat \<Rightarrow> rat" where
  "float_mul a b = fl (fl a * fl b)"

definition float_div :: "rat \<Rightarrow> rat \<Rightarrow> rat" where
  "float_div a b = fl (fl a / fl b)"

text \<open>
  \<^verbatim>\<open>sum(xs)\<close> on a list of floats: the elements are added from left to right, each
  addition rounded. (From version 3.12 on CPython compensates the rounding errors of these
  additions, which changes nothing where they are exact.) An entry of the timing window is
  the float nearest to a number with one decimal place; the window holds that number, and
  \<open>fl\<close> gives the float.
\<close>

definition float_sum :: "rat list \<Rightarrow> rat" where
  "float_sum xs = foldl (\<lambda>acc x. fl (acc + fl x)) 0 xs"

subsection \<open>Text of numbers\<close>

definition digit :: "nat \<Rightarrow> char" where
  "digit n = ''0123456789'' ! n"

fun str_nat :: "nat \<Rightarrow> string" where
  "str_nat n = (if n < 10 then [digit n] else str_nat (n div 10) @ [digit (n mod 10)])"

declare str_nat.simps [simp del]

text \<open>\<^verbatim>\<open>str(i)\<close> and the format \<^verbatim>\<open>{i:d}\<close> of a Python int.\<close>

definition str_int :: "int \<Rightarrow> string" where
  "str_int i = (if i < 0 then CHR ''-'' # str_nat (nat (- i)) else str_nat (nat i))"

text \<open>The format \<^verbatim>\<open>{i:02d}\<close>: zeros on the left up to width two.\<close>

definition pad2 :: "int \<Rightarrow> string" where
  "pad2 i = (let d = str_int i in replicate (2 - length d) CHR ''0'' @ d)"

text \<open>
  \<^verbatim>\<open>sec_to_time\<close> (lines 162-166). Python's \<^verbatim>\<open>divmod\<close> on ints floors, as \<open>div\<close> and
  \<open>mod\<close> on \<open>int\<close> do.
\<close>

definition sec_to_time :: "int \<Rightarrow> string" where
  "sec_to_time sec =
     (let m = sec div 60; s = sec mod 60;
          h = m div 60; m' = m mod 60
      in str_int h @ '':'' @ pad2 m' @ '':'' @ pad2 s)"

subsection \<open>Terminal styles (lines 141-160)\<close>

definition esc :: char where
  "esc = CHR 0x1B"

definition style :: "string \<Rightarrow> string \<Rightarrow> string" where
  "style ansi inp = ansi @ inp @ (esc # ''[0m'')"

definition green :: "string \<Rightarrow> string" where
  "green = style (esc # ''[32m'')"

definition red :: "string \<Rightarrow> string" where
  "red = style (esc # ''[31m'')"

definition mag :: "string \<Rightarrow> string" where
  "mag = style (esc # ''[35m'')"

definition dim :: "string \<Rightarrow> string" where
  "dim = style (esc # ''[37;2m'')"

definition avg_last_vals :: nat where
  "avg_last_vals = 10"

definition t_up :: string where
  "t_up = esc # ''[1A''"

definition t_erase :: string where
  "t_erase = esc # ''[2K''"

definition bar_rmv :: string where
  "bar_rmv = CHR 0x0A # t_erase @ t_up @ t_erase"

text \<open>The bullet of the progress bar, U+2022, as its three bytes in UTF-8.\<close>

definition bullet :: string where
  "bullet = [CHR 0xE2, CHR 0x80, CHR 0xA2]"

section \<open>Paths and the directory tree\<close>

text \<open>
  A \<^verbatim>\<open>pathlib.Path\<close> is taken as the tuple of its \<^verbatim>\<open>parts\<close>: \<^verbatim>\<open>Path('in/.cfg/a.png')\<close> is
  \<open>[''in'', ''.cfg'', ''a.png'']\<close>, and \<^verbatim>\<open>Path('')\<close> and \<^verbatim>\<open>Path('.')\<close> are \<open>[]\<close>. Reading a
  command-line string into its parts is \<^verbatim>\<open>pathlib\<close>'s work and is not repeated here.
\<close>

type_synonym path = "string list"

text \<open>\<^verbatim>\<open>i.startswith('.')\<close>\<close>

definition startswith_dot :: "string \<Rightarrow> bool" where
  "startswith_dot i = (case i of [] \<Rightarrow> False | c # _ \<Rightarrow> c = CHR ''.'')"

text \<open>\<^verbatim>\<open>Path.name\<close>: the last part, or the empty string for an empty path and for the root.\<close>

definition name_of :: "path \<Rightarrow> string" where
  "name_of p = (if p = [] \<or> p = [''/''] then [] else last p)"

text \<open>\<^verbatim>\<open>s.rsplit(c, 1)\<close> when \<open>c\<close> occurs in \<open>s\<close>: the text before and after its last occurrence.\<close>

definition rsplit1 :: "char \<Rightarrow> string \<Rightarrow> (string \<times> string) option" where
  "rsplit1 c s =
     (if c \<in> set s
      then Some (rev (tl (dropWhile (\<lambda>x. x \<noteq> c) (rev s))), rev (takeWhile (\<lambda>x. x \<noteq> c) (rev s)))
      else None)"

text \<open>\<^verbatim>\<open>Path.stem\<close>: the name without its last suffix; a dot at either end begins no suffix.\<close>

definition stem :: "string \<Rightarrow> string" where
  "stem nm =
     (case rsplit1 CHR ''.'' nm of
        None \<Rightarrow> nm
      | Some (a, b) \<Rightarrow> if a = [] \<or> b = [] then nm else a)"

text \<open>
  What lies on disk below a directory: files and directories, each with its name, in the
  order in which the file system lists them.
\<close>

datatype tree = File string | Dir string "tree list"

fun node_name :: "tree \<Rightarrow> string" where
  "node_name (File n) = n"
| "node_name (Dir n kids) = n"

fun node_is_file :: "tree \<Rightarrow> bool" where
  "node_is_file (File n) = True"
| "node_is_file (Dir n kids) = False"

text \<open>What the input path points to: \<^verbatim>\<open>is_dir()\<close> holds of a directory, \<^verbatim>\<open>is_file()\<close> of a regular file.\<close>

datatype fsobj = Missing | Regular | Directory "tree list"

text \<open>An element of the listing: the path that \<^verbatim>\<open>glob\<close> yields and what \<^verbatim>\<open>is_file()\<close> says of it.\<close>

datatype elm = Elm (parts: path) (is_file: bool)

definition entry :: "path \<Rightarrow> tree \<Rightarrow> elm" where
  "entry p t = Elm (p @ [node_name t]) (node_is_file t)"

text \<open>The entries strictly below a node that is found at path \<open>p\<close>.\<close>

fun walk :: "path \<Rightarrow> tree \<Rightarrow> elm list" where
  "walk p (File n) = []"
| "walk p (Dir n kids) =
     map (entry p) kids @ concat (map (\<lambda>t. walk (p @ [node_name t]) t) kids)"

text \<open>
  \<^verbatim>\<open>path.glob('**/*')\<close> (line 112): every file and directory below \<^verbatim>\<open>path\<close>, hidden ones
  too, each as \<^verbatim>\<open>path\<close> extended by the names that lead to it; \<^verbatim>\<open>path\<close> itself is not listed.
\<close>

definition glob :: "path \<Rightarrow> tree list \<Rightarrow> elm list" where
  "glob p kids = map (entry p) kids @ concat (map (\<lambda>t. walk (p @ [node_name t]) t) kids)"

text \<open>The number of files and directories of a tree, counted without any path.\<close>

fun nodes :: "tree \<Rightarrow> nat" where
  "nodes (File n) = 1"
| "nodes (Dir n kids) = Suc (sum_list (map nodes kids))"

section \<open>Exceptions, the collaborators and the state of a run\<close>

text \<open>
  An exception is known by the handler that takes it and by its text \<^verbatim>\<open>str(e)\<close>.
  \<open>OtherError\<close> stands for every class that none of the script's handlers names, a warning
  raised as an error among them.
\<close>

datatype exn_kind =
  KeyboardInterrupt | IndexError | ValueError | ZeroDivisionError | NameError | OtherError

datatype exn = Exn (kind: exn_kind) (message: string)

text \<open>How control leaves the script early: \<^verbatim>\<open>sys.exit(n)\<close>, or an exception that nothing catches.\<close>

datatype abort = SysExit int | Uncaught exn

text \<open>An image buffer: its \<^verbatim>\<open>shape\<close> and its content, which the script never looks into.\<close>

datatype image = Image (shape: "nat list") (pixels: "nat list")

text \<open>
  The warnings filter: \<^verbatim>\<open>filterwarnings("error")\<close> makes the libraries raise their warnings
  (strict), \<^verbatim>\<open>filterwarnings("ignore")\<close> silences them (permissive).
\<close>

datatype wmode = W_default | W_error | W_ignore

text \<open>The keyword arguments of \<^verbatim>\<open>transform.resize\<close>.\<close>

record resize_opts =
  anti_aliasing :: bool
  edge_mode :: string
  preserve_range :: bool
  interp_order :: nat

text \<open>
  What a run does to the outside, in order: the lines it prints and the calls it makes to
  the image libraries, each call with its arguments and the warnings filter in force.
  A log line about a file carries the file; the script derives the words it prints from it
  with \<^verbatim>\<open>parse_path\<close>, which cannot fail on a file of the list. A warning or error line
  carries the text of the exception before the script trims it. \<open>Bar\<close> holds the two lines
  of one \<^verbatim>\<open>bar_redraw\<close>. An image is written to a directory under a base name.
\<close>

datatype event =
    Msg_non_image
  | Msg_found nat nat
  | Msg_none_found
  | Msg_directories string path
  | Msg_skipping elm
  | Msg_processing elm
  | Msg_cancelled
  | Msg_warning elm string
  | Msg_error elm string
  | Bar string string
  | Call_imread wmode elm
  | Call_convert wmode image int int
  | Call_resize wmode image int int resize_opts
  | Call_imsave wmode string string image

text \<open>
  The collaborators of the script are outside it: reading, converting, resizing and
  writing an image, and the two clocks. Each library call answers with a value or with the
  exception it raises; its first argument names the file being processed, so that a
  library may answer differently from one file to the next. The clocks are read by the
  number of earlier readings.
\<close>

record env =
  imread :: "elm \<Rightarrow> wmode \<Rightarrow> exn + image"
  convert :: "elm \<Rightarrow> wmode \<Rightarrow> image \<Rightarrow> int \<Rightarrow> int \<Rightarrow> exn + image"
  resize :: "elm \<Rightarrow> wmode \<Rightarrow> image \<Rightarrow> int \<Rightarrow> int \<Rightarrow> exn + image"
  imsave :: "elm \<Rightarrow> wmode \<Rightarrow> string \<Rightarrow> string \<Rightarrow> image \<Rightarrow> exn + unit"
  wall :: "nat \<Rightarrow> rat"
  cpu :: "nat \<Rightarrow> rat"

text \<open>
  The command line as the main block uses it: \<^verbatim>\<open>args.factor\<close>, \<^verbatim>\<open>args.scaling\<close>,
  \<^verbatim>\<open>args.warnings\<close>, the parts of \<^verbatim>\<open>Path(args.input)\<close> and the text \<^verbatim>\<open>str(output_dir)\<close>
  of the output directory (lines 220-225). The other options only configure the converter.
\<close>

record args =
  factor :: int
  scaling :: int
  warnings :: bool
  input_parts :: path
  output_dir :: string

text \<open>
  The globals that the main block sets once before the loop: \<^verbatim>\<open>all_files\<close> (line 217) and
  \<^verbatim>\<open>o_path, o_base\<close> (line 239), which are assigned only when the text of the output
  directory holds a slash.
\<close>

record run = args +
  all_files :: nat
  o_names :: "(string \<times> string) option"

text \<open>
  The globals that change: the counters, the timing window, the two time stamps (absent
  until first assigned), the warnings filter, how often each clock was read, and the trace.
\<close>

record state =
  f_excluded :: nat
  cur_file :: nat
  warn_cnt :: nat
  err_cnt :: nat
  time_img :: "rat list"
  img_start :: "rat option"
  img_end :: "rat option"
  wfilter :: wmode
  n_wall :: nat
  n_cpu :: nat
  out :: "event list"

definition init_state :: state where
  "init_state =
     \<lparr>f_excluded = 0, cur_file = 0, warn_cnt = 0, err_cnt = 0, time_img = [],
      img_start = None, img_end = None, wfilter = W_default, n_wall = 0, n_cpu = 0, out = []\<rparr>"

definition emit :: "event \<Rightarrow> state \<Rightarrow> state" where
  "emit ev s = s\<lparr>out := out s @ [ev]\<rparr>"

section \<open>The path resolver (lines 88-121)\<close>

text \<open>
  The two filter functions return the element (a \<^verbatim>\<open>Path\<close>, always true as a condition) or
  count it in \<^verbatim>\<open>f_excluded\<close> and return \<^verbatim>\<open>False\<close>; here they return the condition and the
  counter.
\<close>

definition exclude_hidden :: "elm \<Rightarrow> nat \<Rightarrow> bool \<times> nat" where
  "exclude_hidden el n =
     (if \<not> list_ex startswith_dot (parts el) then (True, n) else (False, n + 1))"

definition with_extension :: "elm \<Rightarrow> nat \<Rightarrow> bool \<times> nat" where
  "with_extension el n =
     (if is_file el \<and> CHR ''.'' \<in> set (name_of (parts el)) then (True, n) else (False, n + 1))"

text \<open>\<^verbatim>\<open>list(filter(f, xs))\<close> for a function \<open>f\<close> that counts: one call per element, in order.\<close>

fun filter_counting :: "('a \<Rightarrow> nat \<Rightarrow> bool \<times> nat) \<Rightarrow> 'a list \<Rightarrow> nat \<Rightarrow> 'a list \<times> nat" where
  "filter_counting f [] n = ([], n)"
| "filter_counting f (x # xs) n =
     (case f x n of
        (keep, n') \<Rightarrow>
          (case filter_counting f xs n' of
             (ys, n'') \<Rightarrow> (if keep then x # ys else ys, n'')))"

definition sys_exit :: "int \<Rightarrow> state \<Rightarrow> (abort + 'a) \<times> state" where
  "sys_exit n s = (Inl (SysExit n), s)"

definition get_file_list :: "path \<Rightarrow> fsobj \<Rightarrow> state \<Rightarrow> (abort + elm list) \<times> state" where
  "get_file_list p fs s =
     (case fs of
        Directory kids \<Rightarrow>
          (case filter_counting exclude_hidden (glob p kids) (f_excluded s) of
             (tree, n1) \<Rightarrow>
               (case filter_counting with_extension tree n1 of
                  (file_names, n2) \<Rightarrow> (Inr file_names, s\<lparr>f_excluded := n2\<rparr>)))
      | Regular \<Rightarrow>
          if CHR ''.'' \<in> set (name_of p) then (Inr [Elm p True], s)
          else sys_exit 1 (emit Msg_non_image s)
      | Missing \<Rightarrow> sys_exit 1 (emit Msg_non_image s))"

section \<open>The status bar (lines 152-211)\<close>

text \<open>\<^verbatim>\<open>i_cur / all_files * 100\<close>: the division of two ints gives a float.\<close>

definition percent_done :: "nat \<Rightarrow> nat \<Rightarrow> rat" where
  "percent_done i n = float_mul (float_div (of_nat i) (of_nat n)) 100"

text \<open>
  \<^verbatim>\<open>str(round(i_cur / all_files * 100, 1))\<close>: a number of tenths, written with one decimal.
\<close>

definition percent_text :: "nat \<Rightarrow> nat \<Rightarrow> string" where
  "percent_text i n =
     (let t = py_round (percent_done i n * 10)
      in str_int (t div 10) @ ''.'' @ str_int (t mod 10))"

text \<open>The first printed line (lines 172-175). Repeating a string a negative number of times gives the empty string.\<close>

definition bar_line :: "nat \<Rightarrow> nat \<Rightarrow> string" where
  "bar_line i n =
     (let p_int = py_round (percent_done i n) div 2
      in ''[ '' @ concat (replicate (nat p_int) bullet)
         @ concat (replicate (nat (50 - p_int)) (dim ''-'')) @ '' ] ''
         @ percent_text i n @ '' %'')"

text \<open>The remaining time (lines 183-189): the average of the window times the files still to do.\<close>

definition remaining_text :: "nat \<Rightarrow> nat \<Rightarrow> rat list \<Rightarrow> bool \<Rightarrow> string" where
  "remaining_text n i w final =
     (if 0 < length w \<and> \<not> final then
        (let t_avg = float_div (float_sum w) (of_nat (length w));
             rem = py_round (float_mul t_avg (of_int (int n - int i)))
         in sec_to_time rem)
      else if \<not> final then ''Calculating...'' else sec_to_time 0)"

text \<open>The counters at the head of the second line (lines 178-181).\<close>

definition status_head :: "run \<Rightarrow> state \<Rightarrow> string" where
  "status_head g s =
     ''Done '' @ green (str_int (int (cur_file s))) @ ''/'' @ str_int (int (all_files g)) @ dim '' | ''
     @ (if warnings g then ''Warnings: '' @ mag (str_int (int (warn_cnt s))) @ dim '' | '' else [])
     @ ''Errors: '' @ red (str_int (int (err_cnt s))) @ dim '' | ''"

text \<open>The second printed line (lines 178-196), given the rounded CPU time \<open>t_pass\<close>.\<close>

definition status_line :: "run \<Rightarrow> state \<Rightarrow> bool \<Rightarrow> int \<Rightarrow> string" where
  "status_line g s final t_pass =
     (let r = status_head g s @ ''Elapsed: '' @ sec_to_time t_pass @ dim '' | '' @ ''Remaining: ''
              @ remaining_text (all_files g) (cur_file s) (time_img s) final
      in if final then bar_rmv @ r else r @ t_up @ t_up @ [CHR 0x0D])"

text \<open>
  \<^verbatim>\<open>bar_redraw\<close>: reads the process CPU clock, then divides by \<^verbatim>\<open>all_files\<close>, which raises
  when no file was found.
\<close>

definition bar_redraw :: "run \<Rightarrow> env \<Rightarrow> bool \<Rightarrow> state \<Rightarrow> (abort + unit) \<times> state" where
  "bar_redraw g e final s =
     (let t_pass = py_round (fl (cpu e (n_cpu s)));
          s1 = s\<lparr>n_cpu := Suc (n_cpu s)\<rparr>
      in if all_files g = 0 then (Inl (Uncaught (Exn ZeroDivisionError ''division by zero'')), s1)
         else (Inr (), emit (Bar (bar_line (cur_file s1) (all_files g)) (status_line g s1 final t_pass)) s1))"

text \<open>Running one step after another: an exit or an exception of the first step ends both.\<close>

definition then_do ::
  "(abort + 'a) \<times> state \<Rightarrow> ('a \<Rightarrow> state \<Rightarrow> (abort + 'b) \<times> state) \<Rightarrow> (abort + 'b) \<times> state" where
  "then_do r k = (case r of (Inl a, s) \<Rightarrow> (Inl a, s) | (Inr v, s) \<Rightarrow> k v s)"

text \<open>
  \<^verbatim>\<open>print_warn\<close> and \<^verbatim>\<open>print_err\<close> (lines 199-211). Both build the text to trim from
  \<^verbatim>\<open>o_path\<close> and \<^verbatim>\<open>o_base\<close>; reading a global that was never assigned raises \<^verbatim>\<open>NameError\<close>.
\<close>

definition print_warn :: "run \<Rightarrow> env \<Rightarrow> elm \<Rightarrow> exn \<Rightarrow> state \<Rightarrow> (abort + unit) \<times> state" where
  "print_warn g e f warn s =
     (if message warn \<noteq> [] \<and> warnings g then
        (case o_names g of
           None \<Rightarrow> (Inl (Uncaught (Exn NameError ''o_path'')), s)
         | Some (o_path, o_base) \<Rightarrow> bar_redraw g e False (emit (Msg_warning f (message warn)) s))
      else (Inr (), s))"

definition print_err :: "run \<Rightarrow> env \<Rightarrow> elm \<Rightarrow> exn \<Rightarrow> state \<Rightarrow> (abort + unit) \<times> state" where
  "print_err g e f err s =
     (if message err \<noteq> [] then
        (case o_names g of
           None \<Rightarrow> (Inl (Uncaught (Exn NameError ''o_path'')), s)
         | Some (o_path, o_base) \<Rightarrow> bar_redraw g e False (emit (Msg_error f (message err)) s))
      else (Inr (), s))"

section \<open>The batch driver (lines 213-339)\<close>

text \<open>The timing window: one push of lines 264-268.\<close>

definition push_time :: "rat list \<Rightarrow> rat \<Rightarrow> rat list" where
  "push_time w d = (if length w = avg_last_vals then tl w @ [d] else w @ [d])"

text \<open>Lines 263-268: nothing is pushed until \<^verbatim>\<open>img_end\<close> has been assigned.\<close>

definition timing_update :: "state \<Rightarrow> (abort + unit) \<times> state" where
  "timing_update s =
     (case img_end s of
        None \<Rightarrow> (Inr (), s)
      | Some t_end \<Rightarrow>
          (case img_start s of
             None \<Rightarrow> (Inl (Uncaught (Exn NameError ''img_start'')), s)
           | Some t_start \<Rightarrow>
               (Inr (), s\<lparr>time_img := push_time (time_img s) (round1 (float_sub t_end t_start))\<rparr>)))"

text \<open>\<^verbatim>\<open>t.time()\<close>\<close>

definition read_wall :: "env \<Rightarrow> state \<Rightarrow> rat \<times> state" where
  "read_wall e s = (wall e (n_wall s), s\<lparr>n_wall := Suc (n_wall s)\<rparr>)"

text \<open>The handler of \<^verbatim>\<open>KeyboardInterrupt\<close> (lines 297-300 and 326-329).\<close>

definition cancel :: "run \<Rightarrow> env \<Rightarrow> state \<Rightarrow> (abort + 'a) \<times> state" where
  "cancel g e s = then_do (bar_redraw g e True (emit Msg_cancelled s)) (\<lambda>_ s1. sys_exit 0 s1)"

text \<open>
  Lines 294-311. The result is the converted buffer, or \<open>None\<close> when the handler of
  \<^verbatim>\<open>IndexError\<close> ends the iteration with \<^verbatim>\<open>continue\<close>.
\<close>

definition convert_step ::
  "run \<Rightarrow> env \<Rightarrow> elm \<Rightarrow> image \<Rightarrow> int \<Rightarrow> int \<Rightarrow> state \<Rightarrow> (abort + image option) \<times> state" where
  "convert_step g e f img h w s =
     (let s1 = emit (Call_convert W_error img h w) (s\<lparr>wfilter := W_error\<rparr>) in
      case convert e f W_error img h w of
        Inr pyxelated \<Rightarrow> (Inr (Some pyxelated), s1)
      | Inl x \<Rightarrow>
          if kind x = KeyboardInterrupt then cancel g e s1
          else if kind x = IndexError then
            then_do (print_err g e f x (s1\<lparr>err_cnt := err_cnt s1 + 1\<rparr>)) (\<lambda>_ s2.
            then_do (bar_redraw g e False s2) (\<lambda>_ s3. (Inr None, s3)))
          else
            then_do (print_warn g e f x (s1\<lparr>warn_cnt := warn_cnt s1 + 1\<rparr>)) (\<lambda>_ s2.
              let s3 = emit (Call_convert W_ignore img h w) (s2\<lparr>wfilter := W_ignore\<rparr>) in
              case convert e f W_ignore img h w of
                Inl y \<Rightarrow> (Inl (Uncaught y), s3)
              | Inr pyxelated \<Rightarrow> (Inr (Some pyxelated), s3)))"

text \<open>Lines 313-320: the upscaling, with the dimensions computed from the source image.\<close>

definition resize_call :: resize_opts where
  "resize_call = \<lparr>anti_aliasing = False, edge_mode = ''edge'', preserve_range = True, interp_order = 0\<rparr>"

definition resize_step ::
  "run \<Rightarrow> env \<Rightarrow> elm \<Rightarrow> image \<Rightarrow> int \<Rightarrow> int \<Rightarrow> state \<Rightarrow> (abort + image) \<times> state" where
  "resize_step g e f pyxelated height width s =
     (if 1 < scaling g then
        (let th = (height div factor g) * scaling g;
             tw = (width div factor g) * scaling g;
             s1 = emit (Call_resize (wfilter s) pyxelated th tw resize_call) s
         in case resize e f (wfilter s) pyxelated th tw of
              Inl x \<Rightarrow> (Inl (Uncaught x), s1)
            | Inr resized \<Rightarrow> (Inr resized, s1))
      else (Inr pyxelated, s))"

text \<open>Lines 322-334: writing the image under \<open>base\<close> in the output directory.\<close>

definition encode_step ::
  "run \<Rightarrow> env \<Rightarrow> elm \<Rightarrow> string \<Rightarrow> image \<Rightarrow> state \<Rightarrow> (abort + unit) \<times> state" where
  "encode_step g e f base pyxelated s =
     (let s1 = emit (Call_imsave W_error (output_dir g) base pyxelated) (s\<lparr>wfilter := W_error\<rparr>) in
      case imsave e f W_error (output_dir g) base pyxelated of
        Inr u \<Rightarrow> (Inr (), s1)
      | Inl x \<Rightarrow>
          if kind x = KeyboardInterrupt then cancel g e s1
          else
            then_do (print_warn g e f x (s1\<lparr>warn_cnt := warn_cnt s1 + 1\<rparr>)) (\<lambda>_ s2.
              let s3 = emit (Call_imsave W_ignore (output_dir g) base pyxelated) (s2\<lparr>wfilter := W_ignore\<rparr>) in
              case imsave e f W_ignore (output_dir g) base pyxelated of
                Inl y \<Rightarrow> (Inl (Uncaught y), s3)
              | Inr u \<Rightarrow> (Inr (), s3)))"

text \<open>
  The three ways in which one pass through the loop body hands control back to the loop:
  the \<^verbatim>\<open>continue\<close> of line 279, the \<^verbatim>\<open>continue\<close> of line 306, and the end of the body.
\<close>

datatype img_result = Skipped | Failed | Counted

text \<open>
  Lines 287-337, from the decoded image on. Unpacking \<^verbatim>\<open>image.shape\<close> into three names
  raises unless the shape has three entries, and \<^verbatim>\<open>//\<close> raises on a factor of zero.
\<close>

definition process_decoded ::
  "run \<Rightarrow> env \<Rightarrow> elm \<Rightarrow> image \<Rightarrow> state \<Rightarrow> (abort + img_result) \<times> state" where
  "process_decoded g e f img s =
     (case shape img of
        [height, width, channels] \<Rightarrow>
          if factor g = 0 then (Inl (Uncaught (Exn ZeroDivisionError ''integer division or modulo by zero'')), s)
          else
            then_do (convert_step g e f img (int height div factor g) (int width div factor g) s) (\<lambda>r s1.
              case r of
                None \<Rightarrow> (Inr Failed, s1)
              | Some pyxelated \<Rightarrow>
                  then_do (resize_step g e f pyxelated (int height) (int width) s1) (\<lambda>resized s2.
                  then_do (encode_step g e f (stem (name_of (parts f)) @ ''.png'') resized s2) (\<lambda>_ s3.
                    case read_wall e s3 of
                      (t_end, s4) \<Rightarrow> (Inr Counted, s4\<lparr>img_end := Some t_end, cur_file := cur_file s4 + 1\<rparr>))))
      | _ \<Rightarrow> (Inl (Uncaught (Exn ValueError ''unpack'')), s))"

text \<open>The loop body (lines 257-337) for one file.\<close>

definition process_image :: "run \<Rightarrow> env \<Rightarrow> elm \<Rightarrow> state \<Rightarrow> (abort + img_result) \<times> state" where
  "process_image g e f s =
     then_do (timing_update s) (\<lambda>_ s1.
       case read_wall e s1 of
         (t_start, s2) \<Rightarrow>
           (let s3 = emit (Call_imread (wfilter s2) f) (s2\<lparr>img_start := Some t_start\<rparr>) in
            case imread e f (wfilter s2) of
              Inl x \<Rightarrow>
                if kind x = ValueError then
                  then_do (bar_redraw g e False (emit (Msg_skipping f) s3)) (\<lambda>_ s4. (Inr Skipped, s4))
                else (Inl (Uncaught x), s3)
            | Inr img \<Rightarrow>
                then_do (bar_redraw g e False (emit (Msg_processing f) s3)) (\<lambda>_ s4.
                  process_decoded g e f img s4)))"

fun main_loop :: "run \<Rightarrow> env \<Rightarrow> elm list \<Rightarrow> state \<Rightarrow> (abort + unit) \<times> state" where
  "main_loop g e [] s = (Inr (), s)"
| "main_loop g e (f # fs) s =
     (case process_image g e f s of
        (Inl a, s1) \<Rightarrow> (Inl a, s1)
      | (Inr r, s1) \<Rightarrow> main_loop g e fs s1)"

text \<open>The globals of the run, once the list of files is known (lines 217 and 238-242).\<close>

definition start_run :: "args \<Rightarrow> nat \<Rightarrow> run" where
  "start_run a n =
     \<lparr>factor = factor a, scaling = scaling a, warnings = warnings a,
      input_parts = input_parts a, output_dir = output_dir a,
      all_files = n, o_names = rsplit1 CHR ''/'' (output_dir a)\<rparr>"

text \<open>
  The main block. Creating the output directory and constructing the converter are
  taken to succeed. A run ends with \<open>Inr ()\<close> when the script reaches its last line.
\<close>

definition main :: "args \<Rightarrow> fsobj \<Rightarrow> env \<Rightarrow> (abort + unit) \<times> state" where
  "main a fs e =
     then_do (get_file_list (input_parts a) fs init_state) (\<lambda>image_files s.
       if image_files \<noteq> [] then
         (let g = start_run a (length image_files);
              s1 = emit (Msg_found (length image_files) (f_excluded s)) s;
              s2 = emit (Msg_directories (output_dir a) (input_parts a)) s1
          in then_do (main_loop g e image_files s2) (\<lambda>_ s3. bar_redraw g e True s3))
       else sys_exit 1 (emit Msg_none_found s))"

text \<open>
  How the process ends: with status 0 when the script runs to its last line, with status
  \<open>n\<close> after \<^verbatim>\<open>sys.exit(n)\<close>, and with status 1 after an exception that nothing catches,
  when the interpreter prints the traceback. An uncaught \<^verbatim>\<open>KeyboardInterrupt\<close> is the one
  exception to that: the interpreter (CPython 3.8 and later) then ends the process by the
  interrupt signal, which gives no exit status and which a shell reports as 130.
\<close>

datatype ending = Status int | Killed_by_interrupt

definition exit_status :: "abort + unit \<Rightarrow> ending" where
  "exit_status r =
     (case r of
        Inr u \<Rightarrow> Status 0
      | Inl (SysExit n) \<Rightarrow> Status n
      | Inl (Uncaught x) \<Rightarrow> if kind x = KeyboardInterrupt then Killed_by_interrupt else Status 1)"

section \<open>Reading a trace\<close>

text \<open>The calls of each library function that a trace holds, in order, with their arguments.\<close>

definition convert_calls :: "event list \<Rightarrow> (wmode \<times> image \<times> int \<times> int) list" where
  "convert_calls evs = [(m, img, h, w). Call_convert m img h w \<leftarrow> evs]"

definition resize_calls :: "event list \<Rightarrow> (image \<times> int \<times> int \<times> resize_opts) list" where
  "resize_calls evs = [(img, h, w, opts). Call_resize m img h w opts \<leftarrow> evs]"

definition imsave_calls :: "event list \<Rightarrow> (wmode \<times> string \<times> string \<times> image) list" where
  "imsave_calls evs = [(m, d, b, img). Call_imsave m d b img \<leftarrow> evs]"

definition imread_calls :: "event list \<Rightarrow> elm list" where
  "imread_calls evs = [f. Call_imread m f \<leftarrow> evs]"

text \<open>The files reported as skipped, and the error lines, that a trace holds.\<close>

definition skipped_files :: "event list \<Rightarrow> elm list" where
  "skipped_files evs = [f. Msg_skipping f \<leftarrow> evs]"

definition error_lines :: "event list \<Rightarrow> (elm \<times> string) list" where
  "error_lines evs = [(f, m). Msg_error f m \<leftarrow> evs]"

text \<open>Whether the cancellation message (lines 298 and 327) was printed.\<close>

definition cancelled :: "event list \<Rightarrow> bool" where
  "cancelled evs = (Msg_cancelled \<in> set evs)"

text \<open>The state that \<^verbatim>\<open>bar_redraw\<close> leaves when it does not raise.\<close>

definition drawn :: "run \<Rightarrow> env \<Rightarrow> bool \<Rightarrow> state \<Rightarrow> state" where
  "drawn g e final s =
     (let s1 = s\<lparr>n_cpu := Suc (n_cpu s)\<rparr>
      in emit (Bar (bar_line (cur_file s1) (all_files g))
                   (status_line g s1 final (py_round (fl (cpu e (n_cpu s)))))) s1)"

text \<open>The two time stamps are assigned in order: \<^verbatim>\<open>img_end\<close> is never there without \<^verbatim>\<open>img_start\<close>.\<close>

definition stamps_ok :: "state \<Rightarrow> bool" where
  "stamps_ok s = (img_end s = None \<or> img_start s \<noteq> None)"

text \<open>What the two filters of the resolver let through.\<close>

definition usable :: "elm \<Rightarrow> bool" where
  "usable el =
     (\<not> list_ex startswith_dot (parts el) \<and> is_file el \<and> CHR ''.'' \<in> set (name_of (parts el)))"

text \<open>
  What drawing the bar, logging and the library steps leave alone: the exclusion counter,
  the completed counter, the timing window, the time stamps and the wall clock.
\<close>

definition untouched :: "state \<Rightarrow> state \<Rightarrow> bool" where
  "untouched s s' =
     (f_excluded s' = f_excluded s \<and> cur_file s' = cur_file s \<and> time_img s' = time_img s \<and>
      img_start s' = img_start s \<and> img_end s' = img_end s \<and> n_wall s' = n_wall s)"

text \<open>An outcome that, if it is an exit, is an exit with status 0.\<close>

definition exits_zero :: "abort + 'a \<Rightarrow> bool" where
  "exits_zero r = (case r of Inl (SysExit n) \<Rightarrow> n = 0 | _ \<Rightarrow> True)"

definition quiet :: "state \<Rightarrow> (abort + 'a) \<times> state \<Rightarrow> bool" where
  "quiet s r = (untouched s (snd r) \<and> exits_zero (fst r))"

text \<open>
  The input path gives nothing to work on: a directory without a usable entry, a file
  whose name has no dot, or a path that is neither.
\<close>

definition no_usable_input :: "path \<Rightarrow> fsobj \<Rightarrow> bool" where
  "no_usable_input p fs =
     (case fs of
        Directory kids \<Rightarrow> filter usable (glob p kids) = []
      | Regular \<Rightarrow> CHR ''.'' \<notin> set (name_of p)
      | Missing \<Rightarrow> True)"

section \<open>A sample run\<close>

text \<open>
  An input directory \<^verbatim>\<open>in\<close> that holds \<^verbatim>\<open>a.png\<close>, \<^verbatim>\<open>b.txt\<close>, a hidden directory
  \<^verbatim>\<open>.hidden\<close> with \<^verbatim>\<open>c.png\<close> in it, and a file \<^verbatim>\<open>d\<close> without extension.
\<close>

definition sample_tree :: "tree list" where
  "sample_tree = [File ''a.png'', File ''b.txt'', Dir ''.hidden'' [File ''c.png''], File ''d'']"

definition sample_args :: args where
  "sample_args =
     \<lparr>factor = 5, scaling = 4, warnings = True, input_parts = [''in''], output_dir = ''/tmp/out''\<rparr>"

text \<open>
  Libraries that read \<^verbatim>\<open>a.png\<close> as a colour image of height 500 and width 1000 and
  reject every other file as not an image, convert and resize to the size asked for, and
  write without complaint; a wall clock that advances by a quarter of a second and a
  little more from one reading to the next.
\<close>

definition sample_env :: env where
  "sample_env =
     \<lparr>imread = (\<lambda>f m. if parts f = [''in'', ''a.png''] then Inr (Image [500, 1000, 3] [])
                        else Inl (Exn ValueError ''Could not find a format to read the file'')),
      convert = (\<lambda>f m img h w. Inr (Image [nat h, nat w, 3] [])),
      resize = (\<lambda>f m img h w. Inr (Image [nat h, nat w, 3] [])),
      imsave = (\<lambda>f m d b img. Inr ()),
      wall = (\<lambda>n. of_nat n * (26 / 100)),
      cpu = (\<lambda>n. of_nat n / 3)\<rparr>"

text \<open>The two files of the sample directory that the resolver keeps.\<close>

definition file_a :: elm where
  "file_a = Elm [''in'', ''a.png''] True"

definition file_b :: elm where
  "file_b = Elm [''in'', ''b.txt''] True"

text \<open>The same run with the output directory given as the bare name \<^verbatim>\<open>out\<close>.\<close>

definition bare_output_args :: args where
  "bare_output_args = sample_args\<lparr>output_dir := ''out''\<rparr>"

text \<open>A converter that warns under the strict filter and returns its input under the permissive one.\<close>

definition warning_env :: env where
  "warning_env =
     sample_env\<lparr>convert := (\<lambda>f m img h w.
       if m = W_error then Inl (Exn OtherError ''Palette fit did not converge'') else Inr img)\<rparr>"

text \<open>
  A converter that warns under the strict filter and converts to the configured size under
  the permissive one.
\<close>

definition retry_env :: env where
  "retry_env =
     sample_env\<lparr>convert := (\<lambda>f m img h w.
       if m = W_error then Inl (Exn OtherError ''Palette fit did not converge'')
       else Inr (Image [nat h, nat w, 3] []))\<rparr>"

text \<open>A reader that fails on every file with an error that is not a \<^verbatim>\<open>ValueError\<close>.\<close>

definition unreadable_env :: env where
  "unreadable_env = sample_env\<lparr>imread := (\<lambda>f m. Inl (Exn OtherError ''Permission denied''))\<rparr>"

text \<open>A converter that raises an \<^verbatim>\<open>IndexError\<close>, with a text and without one.\<close>

definition index_error_env :: "string \<Rightarrow> env" where
  "index_error_env msg = sample_env\<lparr>convert := (\<lambda>f m img h w. Inl (Exn IndexError msg))\<rparr>"

text \<open>A converter that warns under the strict filter and is interrupted during the retry.\<close>

definition interrupted_retry_env :: env where
  "interrupted_retry_env =
     sample_env\<lparr>convert := (\<lambda>f m img h w.
       if m = W_error then Inl (Exn OtherError ''Palette fit did not converge'')
       else Inl (Exn KeyboardInterrupt []))\<rparr>"

text \<open>A converter that is interrupted during its strict attempt.\<close>

definition interrupted_env :: env where
  "interrupted_env = sample_env\<lparr>convert := (\<lambda>f m img h w. Inl (Exn KeyboardInterrupt []))\<rparr>"

text \<open>A writer that warns under the strict filter and writes under the permissive one.\<close>

definition save_warning_env :: env where
  "save_warning_env =
     sample_env\<lparr>imsave := (\<lambda>f m d b img.
       if m = W_error then Inl (Exn OtherError ''is a low contrast image'') else Inr ())\<rparr>"

text \<open>A directory with an undecodable file between two images, and a reader for it.\<close>

definition three_files_tree :: "tree list" where
  "three_files_tree = [File ''a.png'', File ''b.txt'', File ''c.png'']"

definition two_images_env :: env where
  "two_images_env =
     sample_env\<lparr>imread := (\<lambda>f m.
       if parts f = [''in'', ''b.txt'']
       then Inl (Exn ValueError ''Could not find a format to read the file'')
       else Inr (Image [500, 1000, 3] []))\<rparr>"

section \<open>Properties of the embedding\<close>

lemma length_push_time: "length w \<le> 10 \<Longrightarrow> length (push_time w d) \<le> 10"
  by (auto simp: push_time_def avg_last_vals_def)

lemma foldl_push_time:
  "length w \<le> 10 \<Longrightarrow> foldl push_time w ds = drop (length w + length ds - 10) (w @ ds)"
proof (induction ds arbitrary: w)
  case Nil
  then show ?case by simp
next
  case (Cons d ds)
  have len: "length (push_time w d) \<le> 10"
    using Cons.prems by (rule length_push_time)
  show ?case
  proof (cases "length w = 10")
    case True
    then obtain x w' where w: "w = x # w'" by (cases w) auto
    with True have "push_time w d = w' @ [d]" by (simp add: push_time_def avg_last_vals_def)
    with Cons.IH [OF len] True w show ?thesis by (simp del: drop_append)
  next
    case False
    with Cons.prems have "push_time w d = w @ [d]" by (simp add: push_time_def avg_last_vals_def)
    with Cons.IH [OF len] False Cons.prems show ?thesis by (simp del: drop_append)
  qed
qed

lemma filter_counting_eq:
  assumes "\<And>x n. f x n = (p x, if p x then n else Suc n)"
  shows "filter_counting f xs n = (filter p xs, n + length (filter (\<lambda>x. \<not> p x) xs))"
  by (induction xs arbitrary: n) (auto simp: assms)

lemma length_walk: "Suc (length (walk p t)) = nodes t"
proof (induction p t rule: walk.induct)
  case (1 p n)
  then show ?case by simp
next
  case (2 p n kids)
  have "sum_list (map (\<lambda>t. Suc (length (walk (p @ [node_name t]) t))) kids) = sum_list (map nodes kids)"
    using 2 by (intro arg_cong [where f = sum_list] map_cong) auto
  then show ?case
    by (simp add: length_concat comp_def sum_list_Suc)
qed

lemma length_glob: "length (glob p kids) = sum_list (map nodes kids)"
proof -
  have "sum_list (map (\<lambda>t. Suc (length (walk (p @ [node_name t]) t))) kids) = sum_list (map nodes kids)"
    by (intro arg_cong [where f = sum_list] map_cong) (auto simp: length_walk)
  then show ?thesis
    by (simp add: glob_def length_concat comp_def sum_list_Suc)
qed

lemma convert_calls_append [simp]: "convert_calls (xs @ ys) = convert_calls xs @ convert_calls ys"
  by (simp add: convert_calls_def)
lemma resize_calls_append [simp]: "resize_calls (xs @ ys) = resize_calls xs @ resize_calls ys"
  by (simp add: resize_calls_def)
lemma imsave_calls_append [simp]: "imsave_calls (xs @ ys) = imsave_calls xs @ imsave_calls ys"
  by (simp add: imsave_calls_def)
lemma imread_calls_append [simp]: "imread_calls (xs @ ys) = imread_calls xs @ imread_calls ys"
  by (simp add: imread_calls_def)
lemma skipped_files_append [simp]: "skipped_files (xs @ ys) = skipped_files xs @ skipped_files ys"
  by (simp add: skipped_files_def)
lemma error_lines_append [simp]: "error_lines (xs @ ys) = error_lines xs @ error_lines ys"
  by (simp add: error_lines_def)

lemma convert_calls_Cons [simp]:
  "convert_calls (ev # evs) =
     (case ev of Call_convert m img h w \<Rightarrow> [(m, img, h, w)] | _ \<Rightarrow> []) @ convert_calls evs"
  by (cases ev) (simp_all add: convert_calls_def)

lemma resize_calls_Cons [simp]:
  "resize_calls (ev # evs) =
     (case ev of Call_resize m img h w opts \<Rightarrow> [(img, h, w, opts)] | _ \<Rightarrow> []) @ resize_calls evs"
  by (cases ev) (simp_all add: resize_calls_def)

lemma imsave_calls_Cons [simp]:
  "imsave_calls (ev # evs) =
     (case ev of Call_imsave m d b img \<Rightarrow> [(m, d, b, img)] | _ \<Rightarrow> []) @ imsave_calls evs"
  by (cases ev) (simp_all add: imsave_calls_def)

lemma imread_calls_Cons [simp]:
  "imread_calls (ev # evs) = (case ev of Call_imread m f \<Rightarrow> [f] | _ \<Rightarrow> []) @ imread_calls evs"
  by (cases ev) (simp_all add: imread_calls_def)

lemma skipped_files_Cons [simp]:
  "skipped_files (ev # evs) = (case ev of Msg_skipping f \<Rightarrow> [f] | _ \<Rightarrow> []) @ skipped_files evs"
  by (cases ev) (simp_all add: skipped_files_def)

lemma error_lines_Cons [simp]:
  "error_lines (ev # evs) = (case ev of Msg_error f m \<Rightarrow> [(f, m)] | _ \<Rightarrow> []) @ error_lines evs"
  by (cases ev) (simp_all add: error_lines_def)

lemma calls_Nil [simp]:
  "convert_calls [] = []" "resize_calls [] = []" "imsave_calls [] = []" "imread_calls [] = []"
  "skipped_files [] = []" "error_lines [] = []"
  by (simp_all add: convert_calls_def resize_calls_def imsave_calls_def imread_calls_def
      skipped_files_def error_lines_def)

lemma then_do_Inl [simp]: "then_do (Inl a, s) k = (Inl a, s)"
  by (simp add: then_do_def)
lemma then_do_Inr [simp]: "then_do (Inr v, s) k = k v s"
  by (simp add: then_do_def)

lemma emit_fields [simp]:
  "f_excluded (emit ev s) = f_excluded s" "cur_file (emit ev s) = cur_file s"
  "warn_cnt (emit ev s) = warn_cnt s" "err_cnt (emit ev s) = err_cnt s"
  "time_img (emit ev s) = time_img s" "img_start (emit ev s) = img_start s"
  "img_end (emit ev s) = img_end s" "wfilter (emit ev s) = wfilter s"
  "n_wall (emit ev s) = n_wall s" "n_cpu (emit ev s) = n_cpu s"
  "out (emit ev s) = out s @ [ev]"
  by (simp_all add: emit_def)

lemma drawn_fields [simp]:
  "f_excluded (drawn g e l s) = f_excluded s" "cur_file (drawn g e l s) = cur_file s"
  "warn_cnt (drawn g e l s) = warn_cnt s" "err_cnt (drawn g e l s) = err_cnt s"
  "time_img (drawn g e l s) = time_img s" "img_start (drawn g e l s) = img_start s"
  "img_end (drawn g e l s) = img_end s" "wfilter (drawn g e l s) = wfilter s"
  "n_wall (drawn g e l s) = n_wall s" "n_cpu (drawn g e l s) = Suc (n_cpu s)"
  by (simp_all add: drawn_def Let_def)

lemma out_drawn:
  "out (drawn g e l s) =
     out s @ [Bar (bar_line (cur_file s) (all_files g))
                  (status_line g (s\<lparr>n_cpu := Suc (n_cpu s)\<rparr>) l (py_round (fl (cpu e (n_cpu s)))))]"
  by (simp add: drawn_def Let_def)

lemma calls_drawn [simp]:
  "convert_calls (out (drawn g e l s)) = convert_calls (out s)"
  "resize_calls (out (drawn g e l s)) = resize_calls (out s)"
  "imsave_calls (out (drawn g e l s)) = imsave_calls (out s)"
  "imread_calls (out (drawn g e l s)) = imread_calls (out s)"
  "skipped_files (out (drawn g e l s)) = skipped_files (out s)"
  "error_lines (out (drawn g e l s)) = error_lines (out s)"
  by (simp_all add: out_drawn)

lemma bar_redraw_ok: "0 < all_files g \<Longrightarrow> bar_redraw g e l s = (Inr (), drawn g e l s)"
  by (simp add: bar_redraw_def drawn_def Let_def)

lemma cancel_ok: "0 < all_files g \<Longrightarrow> cancel g e s = (Inl (SysExit 0), drawn g e True (emit Msg_cancelled s))"
  by (simp add: cancel_def bar_redraw_ok sys_exit_def)



lemma untouched_refl [simp]: "untouched s s"
  by (simp add: untouched_def)

lemma untouched_trans: "untouched s s1 \<Longrightarrow> untouched s1 s2 \<Longrightarrow> untouched s s2"
  by (simp add: untouched_def)

lemma untouched_emit [simp]: "untouched s (emit ev s1) = untouched s s1"
  by (simp add: untouched_def)

lemma untouched_drawn [simp]: "untouched s (drawn g e l s1) = untouched s s1"
  by (simp add: untouched_def)

lemma untouched_updates [simp]:
  "untouched s (s1\<lparr>wfilter := m\<rparr>) = untouched s s1"
  "untouched s (s1\<lparr>warn_cnt := n\<rparr>) = untouched s s1"
  "untouched s (s1\<lparr>err_cnt := n\<rparr>) = untouched s s1"
  by (simp_all add: untouched_def)

lemma exits_zero_simps [simp]:
  "exits_zero (Inr v)"
  "exits_zero (Inl a) = (case a of SysExit n \<Rightarrow> n = 0 | Uncaught x \<Rightarrow> True)"
  by (simp_all add: exits_zero_def split: abort.splits)

lemma print_warn_eq:
  "0 < all_files g \<Longrightarrow> print_warn g e f x s =
     (if message x \<noteq> [] \<and> warnings g then
        (if o_names g = None then (Inl (Uncaught (Exn NameError ''o_path'')), s)
         else (Inr (), drawn g e False (emit (Msg_warning f (message x)) s)))
      else (Inr (), s))"
  by (auto simp: print_warn_def bar_redraw_ok split: option.splits)

lemma print_err_eq:
  "0 < all_files g \<Longrightarrow> print_err g e f x s =
     (if message x \<noteq> [] then
        (if o_names g = None then (Inl (Uncaught (Exn NameError ''o_path'')), s)
         else (Inr (), drawn g e False (emit (Msg_error f (message x)) s)))
      else (Inr (), s))"
  by (auto simp: print_err_def bar_redraw_ok split: option.splits)

lemma quiet_convert_step:
  "0 < all_files g \<Longrightarrow> quiet s (convert_step g e f img h w s)"
  by (simp add: quiet_def convert_step_def print_warn_eq print_err_eq cancel_ok bar_redraw_ok
      Let_def split: sum.split)

lemma quiet_resize_step: "quiet s (resize_step g e f px h w s)"
  by (simp add: quiet_def resize_step_def Let_def split: sum.split)

lemma quiet_encode_step:
  "0 < all_files g \<Longrightarrow> quiet s (encode_step g e f b px s)"
  by (simp add: quiet_def encode_step_def print_warn_eq cancel_ok Let_def split: sum.split)


lemma then_do_elim:
  assumes "then_do r k = (x, s')"
  obtains a where "r = (Inl a, s')" "x = Inl a"
  | v s1 where "r = (Inr v, s1)" "k v s1 = (x, s')"
  using assms by (auto simp: then_do_def split: prod.splits sum.splits)

lemma convert_stepD:
  "convert_step g e f img h w s = (r, s1) \<Longrightarrow> 0 < all_files g \<Longrightarrow> untouched s s1 \<and> exits_zero r"
  using quiet_convert_step [of g s e f img h w] by (simp add: quiet_def)

lemma resize_stepD:
  "resize_step g e f px h w s = (r, s1) \<Longrightarrow> untouched s s1 \<and> exits_zero r"
  using quiet_resize_step [of s g e f px h w] by (simp add: quiet_def)

lemma encode_stepD:
  "encode_step g e f b px s = (r, s1) \<Longrightarrow> 0 < all_files g \<Longrightarrow> untouched s s1 \<and> exits_zero r"
  using quiet_encode_step [of g s e f b px] by (simp add: quiet_def)

lemma process_decoded_props:
  assumes "0 < all_files g" and "process_decoded g e f img s = (r, s')"
  shows "f_excluded s' = f_excluded s \<and> time_img s' = time_img s \<and> img_start s' = img_start s \<and>
         exits_zero r \<and> r \<noteq> Inr Skipped \<and>
         (if r = Inr Counted
          then cur_file s' = cur_file s + 1 \<and> img_end s' = Some (wall e (n_wall s)) \<and>
               n_wall s' = Suc (n_wall s)
          else cur_file s' = cur_file s \<and> img_end s' = img_end s \<and> n_wall s' = n_wall s)"
  using assms
  by (auto simp: process_decoded_def read_wall_def untouched_def
      split: list.splits if_splits option.splits
      elim!: then_do_elim dest!: convert_stepD resize_stepD encode_stepD)


lemma timing_update_eq:
  "stamps_ok s \<Longrightarrow> timing_update s =
     (Inr (), case img_end s of None \<Rightarrow> s
              | Some t_end \<Rightarrow> s\<lparr>time_img := push_time (time_img s) (round1 (float_sub t_end (the (img_start s))))\<rparr>)"
  by (auto simp: timing_update_def stamps_ok_def split: option.splits)

lemma process_image_props:
  assumes "0 < all_files g" and "stamps_ok s" and "process_image g e f s = (r, s')"
  shows "f_excluded s' = f_excluded s \<and> exits_zero r \<and> stamps_ok s' \<and>
         img_start s' = Some (wall e (n_wall s)) \<and>
         time_img s' = (case img_end s of None \<Rightarrow> time_img s
                        | Some t_end \<Rightarrow> push_time (time_img s) (round1 (float_sub t_end (the (img_start s))))) \<and>
         (if r = Inr Counted
          then cur_file s' = cur_file s + 1 \<and> img_end s' = Some (wall e (Suc (n_wall s))) \<and>
               n_wall s' = n_wall s + 2
          else cur_file s' = cur_file s \<and> img_end s' = img_end s \<and> n_wall s' = Suc (n_wall s))"
  using assms
  by (auto simp: process_image_def timing_update_eq read_wall_def bar_redraw_ok stamps_ok_def
      Let_def split: sum.splits if_splits option.splits
      dest!: process_decoded_props [rotated])

lemma main_loop_props:
  assumes "0 < all_files g"
  shows "stamps_ok s \<Longrightarrow> length (time_img s) \<le> 10 \<Longrightarrow> main_loop g e fs s = (r, s') \<Longrightarrow>
         f_excluded s' = f_excluded s \<and> exits_zero r \<and> stamps_ok s' \<and>
         length (time_img s') \<le> 10 \<and> cur_file s \<le> cur_file s' \<and>
         cur_file s' \<le> cur_file s + length fs"
proof (induction fs arbitrary: s)
  case Nil
  then show ?case by auto
next
  case (Cons f fs)
  obtain r1 s1 where step: "process_image g e f s = (r1, s1)"
    by (cases "process_image g e f s")
  note p = process_image_props [OF assms Cons.prems(1) step]
  have len: "length (time_img s1) \<le> 10"
    using p Cons.prems(2) by (auto simp: length_push_time split: option.splits)
  have cur: "cur_file s \<le> cur_file s1 \<and> cur_file s1 \<le> cur_file s + 1"
    using p by (auto split: if_splits)
  show ?case
  proof (cases r1)
    case (Inl a)
    with Cons.prems(3) step have "r = Inl a" "s' = s1" by simp_all
    with p len cur Inl show ?thesis by simp
  next
    case (Inr v)
    with Cons.prems(3) step have "main_loop g e fs s1 = (r, s')" by simp
    from Cons.IH [OF _ len this] p cur show ?thesis by simp
  qed
qed


lemma get_file_list_dir:
  "get_file_list p (Directory kids) s =
     (Inr (filter usable (glob p kids)),
      s\<lparr>f_excluded := f_excluded s + length (filter (\<lambda>el. \<not> usable el) (glob p kids))\<rparr>)"
proof -
  define h where "h = (\<lambda>el. \<not> list_ex startswith_dot (parts el))"
  define x where "x = (\<lambda>el. is_file el \<and> CHR ''.'' \<in> set (name_of (parts el)))"
  have 1: "filter_counting exclude_hidden xs n = (filter h xs, n + length (filter (\<lambda>x. \<not> h x) xs))"
    for xs n
    by (rule filter_counting_eq) (simp add: exclude_hidden_def h_def)
  have 2: "filter_counting with_extension xs n = (filter x xs, n + length (filter (\<lambda>y. \<not> x y) xs))"
    for xs n
    by (rule filter_counting_eq) (simp add: with_extension_def x_def)
  have 3: "filter (\<lambda>y. h y \<and> x y) xs = filter usable xs" for xs
    by (induction xs) (auto simp: usable_def h_def x_def)
  have 4: "length (filter (\<lambda>x. \<not> h x) xs) + length (filter (\<lambda>y. h y \<and> \<not> x y) xs) =
           length (filter (\<lambda>el. \<not> usable el) xs)" for xs
    by (induction xs) (auto simp: usable_def h_def x_def)
  show ?thesis
    by (simp add: get_file_list_def 1 2 3 add.assoc 4)
qed

lemma get_file_list_count:
  "get_file_list p (Directory kids) s = (r, s') \<Longrightarrow>
     \<exists>files. r = Inr files \<and> length files + f_excluded s' = f_excluded s + length (glob p kids)"
  using sum_length_filter_compl [of usable "glob p kids"]
  by (auto simp: get_file_list_dir)


lemma all_files_start_run [simp]: "all_files (start_run a n) = n"
  by (simp add: start_run_def)

lemma init_state_fields [simp]:
  "f_excluded init_state = 0" "cur_file init_state = 0" "time_img init_state = []"
  "img_start init_state = None" "img_end init_state = None" "out init_state = []"
  "warn_cnt init_state = 0" "err_cnt init_state = 0" "n_wall init_state = 0"
  by (simp_all add: init_state_def)

lemma stamps_ok_simps [simp]:
  "stamps_ok init_state" "stamps_ok (emit ev s) = stamps_ok s"
  "stamps_ok (s\<lparr>f_excluded := n\<rparr>) = stamps_ok s"
  by (simp_all add: stamps_ok_def)

lemma get_file_list_cases:
  obtains (halt) "no_usable_input p fs"
      "get_file_list p fs s = (Inl (SysExit 1), emit Msg_non_image s)"
  | (empty) kids where "no_usable_input p fs" "fs = Directory kids"
      "get_file_list p fs s = (Inr [], s\<lparr>f_excluded := f_excluded s + length (glob p kids)\<rparr>)"
  | (files) files s0 where "\<not> no_usable_input p fs" "files \<noteq> []"
      "get_file_list p fs s = (Inr files, s0)" "time_img s0 = time_img s"
      "img_start s0 = img_start s" "img_end s0 = img_end s" "out s0 = out s"
      "cur_file s0 = cur_file s"
proof (cases fs)
  case Missing
  then show ?thesis
    by (intro halt) (simp_all add: no_usable_input_def get_file_list_def sys_exit_def)
next
  case Regular
  then show ?thesis
    by (cases "CHR ''.'' \<in> set (name_of p)")
      (auto simp: no_usable_input_def get_file_list_def sys_exit_def intro: halt files)
next
  case (Directory kids)
  show ?thesis
  proof (cases "filter usable (glob p kids) = []")
    case True
    then have "length (filter (\<lambda>el. \<not> usable el) (glob p kids)) = length (glob p kids)"
      using sum_length_filter_compl [of usable "glob p kids"] by simp
    with True Directory show ?thesis
      by (intro empty) (simp_all add: no_usable_input_def get_file_list_dir)
  next
    case False
    with Directory show ?thesis
      using files [of "filter usable (glob p kids)"
          "s\<lparr>f_excluded := f_excluded s + length (filter (\<lambda>el. \<not> usable el) (glob p kids))\<rparr>"]
      by (simp add: no_usable_input_def get_file_list_dir)
  qed
qed

lemma main_props:
  assumes "main a fs e = (r, s')"
  shows "length (time_img s') \<le> 10 \<and>
         f_excluded s' = f_excluded (snd (get_file_list (input_parts a) fs init_state)) \<and>
         (r = Inl (SysExit 1) \<longleftrightarrow> no_usable_input (input_parts a) fs) \<and>
         (\<forall>n. r = Inl (SysExit n) \<longrightarrow> n = 0 \<or> n = 1) \<and>
         (no_usable_input (input_parts a) fs \<longrightarrow>
            r = Inl (SysExit 1) \<and> cur_file s' = 0 \<and>
            (out s' = [Msg_non_image] \<or> out s' = [Msg_none_found]))"
proof (cases "input_parts a" fs init_state rule: get_file_list_cases)
  case halt
  with assms show ?thesis
    by (auto simp: main_def)
next
  case (empty kids)
  with assms show ?thesis
    by (auto simp: main_def sys_exit_def)
next
  case (files files s0)
  define g where "g = start_run a (length files)"
  define s2 where "s2 = emit (Msg_directories (output_dir a) (input_parts a))
                          (emit (Msg_found (length files) (f_excluded s0)) s0)"
  obtain r1 s1 where loop: "main_loop g e files s2 = (r1, s1)"
    by (cases "main_loop g e files s2")
  have g: "0 < all_files g"
    using files by (simp add: g_def)
  have "stamps_ok s2" "length (time_img s2) \<le> 10"
    using files by (simp_all add: s2_def stamps_ok_def)
  from main_loop_props [OF g this loop]
  have p: "f_excluded s1 = f_excluded s0" "exits_zero r1" "length (time_img s1) \<le> 10"
    by (simp_all add: s2_def)
  have m: "main a fs e = (case r1 of Inl x \<Rightarrow> (Inl x, s1) | Inr u \<Rightarrow> (Inr (), drawn g e True s1))"
    using files loop g
    by (simp add: main_def Let_def g_def [symmetric] s2_def [symmetric] bar_redraw_ok
        split: sum.splits)
  show ?thesis
    using assms p files(1,3) unfolding m
    by (auto split: sum.splits abort.splits)
qed


lemma walk_parts: "el \<in> set (walk p t) \<Longrightarrow> \<exists>rest. parts el = p @ rest"
  by (induction p t arbitrary: el rule: walk.induct) (fastforce simp: entry_def)+

lemma glob_parts: "el \<in> set (glob p kids) \<Longrightarrow> \<exists>rest. parts el = p @ rest"
  by (fastforce simp: glob_def entry_def dest: walk_parts)

lemma hidden_root_no_usable:
  assumes "list_ex startswith_dot p"
  shows "filter usable (glob p kids) = []"
    and "length (filter (\<lambda>el. \<not> usable el) (glob p kids)) = length (glob p kids)"
proof -
  have "\<not> usable el" if "el \<in> set (glob p kids)" for el
    using glob_parts [OF that] assms by (auto simp: usable_def list_ex_iff)
  then show "filter usable (glob p kids) = []"
    by (simp add: filter_empty_conv)
  then show "length (filter (\<lambda>el. \<not> usable el) (glob p kids)) = length (glob p kids)"
    using sum_length_filter_compl [of usable "glob p kids"] by simp
qed

lemma convert_step_trace:
  "0 < all_files g \<Longrightarrow> convert_step g e f img h w s = (r, s') \<Longrightarrow>
     resize_calls (out s') = resize_calls (out s) \<and> imsave_calls (out s') = imsave_calls (out s) \<and>
     imread_calls (out s') = imread_calls (out s) \<and> skipped_files (out s') = skipped_files (out s)"
  by (auto simp: convert_step_def print_warn_eq print_err_eq cancel_ok bar_redraw_ok Let_def
      split: sum.splits if_splits)

lemma resize_step_trace:
  "resize_step g e f px h w s = (r, s') \<Longrightarrow>
     convert_calls (out s') = convert_calls (out s) \<and> imsave_calls (out s') = imsave_calls (out s) \<and>
     imread_calls (out s') = imread_calls (out s) \<and> skipped_files (out s') = skipped_files (out s) \<and>
     error_lines (out s') = error_lines (out s) \<and>
     warn_cnt s' = warn_cnt s \<and> err_cnt s' = err_cnt s \<and> wfilter s' = wfilter s \<and>
     resize_calls (out s') = resize_calls (out s) @
       (if 1 < scaling g
        then [(px, (h div factor g) * scaling g, (w div factor g) * scaling g, resize_call)]
        else [])"
  by (auto simp: resize_step_def Let_def split: sum.splits if_splits)

lemma encode_step_trace:
  "0 < all_files g \<Longrightarrow> encode_step g e f b px s = (r, s') \<Longrightarrow>
     convert_calls (out s') = convert_calls (out s) \<and> resize_calls (out s') = resize_calls (out s) \<and>
     imread_calls (out s') = imread_calls (out s) \<and> skipped_files (out s') = skipped_files (out s) \<and>
     error_lines (out s') = error_lines (out s) \<and> err_cnt s' = err_cnt s"
  by (auto simp: encode_step_def print_warn_eq cancel_ok Let_def split: sum.splits if_splits)

lemma sample_files:
  "filter usable (glob [''in''] sample_tree) = [Elm [''in'', ''a.png''] True, Elm [''in'', ''b.txt''] True]"
  "length (filter (\<lambda>el. \<not> usable el) (glob [''in''] sample_tree)) = 3"
  by (simp_all add: sample_tree_def glob_def entry_def usable_def startswith_dot_def name_of_def)

lemma init_state_more [simp]: "wfilter init_state = W_default" "n_cpu init_state = 0"
  by (simp_all add: init_state_def)

lemma convert_step_None:
  "0 < all_files g \<Longrightarrow> convert_step g e f img h w s = (Inr None, s') \<Longrightarrow>
     \<exists>x. convert e f W_error img h w = Inl x \<and> kind x = IndexError"
  by (auto simp: convert_step_def print_warn_eq print_err_eq cancel_ok bar_redraw_ok Let_def
      split: sum.splits if_splits)

lemma encode_step_done:
  "0 < all_files g \<Longrightarrow> encode_step g e f b px s = (Inr u, s') \<Longrightarrow>
     imsave e f W_error (output_dir g) b px = Inr () \<or> imsave e f W_ignore (output_dir g) b px = Inr ()"
  by (auto simp: encode_step_def print_warn_eq cancel_ok Let_def split: sum.splits if_splits)

lemma process_decoded_tags:
  assumes "0 < all_files g" and "process_decoded g e f img s = (r, s')"
  shows "(r = Inr Failed \<longrightarrow> (\<exists>x h w. convert e f W_error img h w = Inl x \<and> kind x = IndexError)) \<and>
         (r = Inr Counted \<longrightarrow>
            (\<exists>b px. imsave e f W_error (output_dir g) b px = Inr () \<or>
                    imsave e f W_ignore (output_dir g) b px = Inr ()))"
  using assms
  apply (auto simp: process_decoded_def read_wall_def
      split: list.splits if_splits option.splits elim!: then_do_elim)
   apply (blast dest: convert_step_None)
  apply (blast dest: encode_step_done)
  done

lemma process_image_tags:
  assumes "0 < all_files g" and "stamps_ok s" and "process_image g e f s = (r, s')"
  shows "(r = Inr Skipped \<longleftrightarrow> (\<exists>x. imread e f (wfilter s) = Inl x \<and> kind x = ValueError)) \<and>
         (r = Inr Failed \<longrightarrow>
            (\<exists>img x h w. imread e f (wfilter s) = Inr img \<and>
               convert e f W_error img h w = Inl x \<and> kind x = IndexError)) \<and>
         (r = Inr Counted \<longrightarrow>
            (\<exists>img b px. imread e f (wfilter s) = Inr img \<and>
               (imsave e f W_error (output_dir g) b px = Inr () \<or>
                imsave e f W_ignore (output_dir g) b px = Inr ())))"
proof (cases "imread e f (wfilter s)")
  case (Inl x)
  with assms show ?thesis
    by (auto simp: process_image_def timing_update_eq read_wall_def bar_redraw_ok Let_def
        split: option.splits if_splits)
next
  case (Inr img)
  define s4 where "s4 = drawn g e False (emit (Msg_processing f)
      (emit (Call_imread (wfilter s) f)
        ((case img_end s of None \<Rightarrow> s
          | Some t_end \<Rightarrow> s\<lparr>time_img := push_time (time_img s) (round1 (float_sub t_end (the (img_start s))))\<rparr>)
         \<lparr>n_wall := Suc (n_wall s), img_start := Some (wall e (n_wall s))\<rparr>)))"
  have "process_image g e f s = process_decoded g e f img s4"
    using assms(1,2) Inr
    by (auto simp: process_image_def timing_update_eq read_wall_def bar_redraw_ok Let_def s4_def
        split: option.splits)
  with assms(3) have d: "process_decoded g e f img s4 = (r, s')"
    by simp
  from process_decoded_tags [OF assms(1) d] process_decoded_props [OF assms(1) d] Inr
  show ?thesis by auto
qed


lemma stem_a_png: "stem (name_of (parts file_a)) @ ''.png'' = ''a.png''"
  by (simp add: file_a_def name_of_def stem_def rsplit1_def)

lemma sample_run:
  assumes "input_parts a = [''in'']" and "factor a \<noteq> 0"
    and "imread e file_a W_default = Inr img"
    and "shape img = [height, width, channels]"
    and "convert e file_a W_error img (int height div factor a) (int width div factor a) = Inr pyxelated"
    and "resize e file_a W_error pyxelated ((int height div factor a) * scaling a)
           ((int width div factor a) * scaling a) = Inr resized"
    and "imsave e file_a W_error (output_dir a) ''a.png''
           (if 1 < scaling a then resized else pyxelated) = Inr ()"
    and "imread e file_b W_error = Inl x" and "kind x = ValueError"
  shows "\<exists>s. main a (Directory sample_tree) e = (Inr (), s) \<and>
           cur_file s = 1 \<and> f_excluded s = 3 \<and> warn_cnt s = 0 \<and> err_cnt s = 0 \<and>
           skipped_files (out s) = [file_b] \<and> imread_calls (out s) = [file_a, file_b] \<and>
           imsave_calls (out s) =
             [(W_error, output_dir a, ''a.png'', if 1 < scaling a then resized else pyxelated)]"
proof -
  have files: "filter usable (glob [''in''] sample_tree) = [file_a, file_b]"
    by (simp add: sample_files file_a_def file_b_def)
  show ?thesis
    using assms
    by (cases "1 < scaling a")
      (simp_all add: main_def get_file_list_dir files sample_files(2) Let_def process_image_def
        timing_update_def read_wall_def bar_redraw_ok process_decoded_def convert_step_def
        resize_step_def encode_step_def start_run_def stem_a_png)
qed


lemma cancelled_simps [simp]:
  "cancelled [] = False"
  "cancelled (xs @ ys) = (cancelled xs \<or> cancelled ys)"
  "cancelled (ev # evs) = (ev = Msg_cancelled \<or> cancelled evs)"
  "cancelled (out (drawn g e l s)) = cancelled (out s)"
  by (auto simp: cancelled_def out_drawn)

lemma convert_step_cancel:
  "convert_step g e f img h w s = (r, s') \<Longrightarrow> 0 < all_files g \<Longrightarrow>
     (cancelled (out s') \<longleftrightarrow> cancelled (out s) \<or> r = Inl (SysExit 0)) \<and>
     (r = Inl (SysExit 0) \<longleftrightarrow> (\<exists>x. convert e f W_error img h w = Inl x \<and> kind x = KeyboardInterrupt))"
  by (auto simp: convert_step_def print_warn_eq print_err_eq cancel_ok bar_redraw_ok Let_def
      split: sum.splits if_splits)

lemma resize_step_cancel:
  "resize_step g e f px h w s = (r, s') \<Longrightarrow>
     (cancelled (out s') \<longleftrightarrow> cancelled (out s)) \<and> r \<noteq> Inl (SysExit 0)"
  by (auto simp: resize_step_def Let_def split: sum.splits if_splits)

lemma encode_step_cancel:
  "encode_step g e f b px s = (r, s') \<Longrightarrow> 0 < all_files g \<Longrightarrow>
     (cancelled (out s') \<longleftrightarrow> cancelled (out s) \<or> r = Inl (SysExit 0)) \<and>
     (r = Inl (SysExit 0) \<longleftrightarrow>
        (\<exists>x. imsave e f W_error (output_dir g) b px = Inl x \<and> kind x = KeyboardInterrupt))"
  by (auto simp: encode_step_def print_warn_eq cancel_ok Let_def split: sum.splits if_splits)

lemma process_decoded_cancel:
  assumes "0 < all_files g" and "process_decoded g e f img s = (r, s')"
  shows "cancelled (out s') \<longleftrightarrow> cancelled (out s) \<or> r = Inl (SysExit 0)"
  using assms
  by (auto simp: process_decoded_def read_wall_def
      split: list.splits if_splits option.splits
      elim!: then_do_elim dest!: convert_step_cancel resize_step_cancel encode_step_cancel)

lemma process_image_cancel:
  assumes "0 < all_files g" and "stamps_ok s" and "process_image g e f s = (r, s')"
  shows "cancelled (out s') \<longleftrightarrow> cancelled (out s) \<or> r = Inl (SysExit 0)"
  using assms
  by (auto simp: process_image_def timing_update_eq read_wall_def bar_redraw_ok Let_def
      split: sum.splits if_splits option.splits
      dest!: process_decoded_cancel [rotated])

lemma main_loop_cancel:
  assumes "0 < all_files g"
  shows "stamps_ok s \<Longrightarrow> \<not> cancelled (out s) \<Longrightarrow> main_loop g e fs s = (r, s') \<Longrightarrow>
         (cancelled (out s') \<longleftrightarrow> r = Inl (SysExit 0))"
proof (induction fs arbitrary: s)
  case Nil
  then show ?case by auto
next
  case (Cons f fs)
  obtain r1 s1 where step: "process_image g e f s = (r1, s1)"
    by (cases "process_image g e f s")
  note c = process_image_cancel [OF assms Cons.prems(1) step]
  have ok: "stamps_ok s1"
    using process_image_props [OF assms Cons.prems(1) step] by simp
  show ?case
  proof (cases r1)
    case (Inl a)
    with Cons.prems(3) step have "r = Inl a" "s' = s1" by simp_all
    with c Inl Cons.prems(2) show ?thesis by simp
  next
    case (Inr v)
    with Cons.prems(3) step have l: "main_loop g e fs s1 = (r, s')" by simp
    from c Inr Cons.prems(2) have "\<not> cancelled (out s1)" by simp
    from Cons.IH [OF ok this l] show ?thesis .
  qed
qed

lemma main_cancel:
  "cancelled (out (snd (main a fs e))) \<longleftrightarrow> fst (main a fs e) = Inl (SysExit 0)"
proof (cases "input_parts a" fs init_state rule: get_file_list_cases)
  case halt
  then show ?thesis
    by (simp add: main_def)
next
  case (empty kids)
  then show ?thesis
    by (simp add: main_def sys_exit_def)
next
  case (files files s0)
  define g where "g = start_run a (length files)"
  define s2 where "s2 = emit (Msg_directories (output_dir a) (input_parts a))
                          (emit (Msg_found (length files) (f_excluded s0)) s0)"
  obtain r1 s1 where loop: "main_loop g e files s2 = (r1, s1)"
    by (cases "main_loop g e files s2")
  have g: "0 < all_files g"
    using files by (simp add: g_def)
  have "stamps_ok s2" "\<not> cancelled (out s2)"
    using files by (simp_all add: s2_def stamps_ok_def)
  note c = main_loop_cancel [OF g this loop]
  have m: "main a fs e = (case r1 of Inl x \<Rightarrow> (Inl x, s1) | Inr u \<Rightarrow> (Inr (), drawn g e True s1))"
    using files loop g
    by (simp add: main_def Let_def g_def [symmetric] s2_def [symmetric] bar_redraw_ok
        split: sum.splits)
  show ?thesis
    unfolding m using c by (auto split: sum.splits)
qed








lemma half_percent_23_of_40: "py_round (percent_done 23 40) div 2 = 28"
  by code_simp


lemma convert_step_Some:
  assumes "0 < all_files g" and "convert_step g e f img h w s = (Inr (Some px), s1)"
  shows "(convert e f W_error img h w = Inr px \<and> wfilter s1 = W_error \<and>
          convert_calls (out s1) = convert_calls (out s) @ [(W_error, img, h, w)]) \<or>
         ((\<exists>x. convert e f W_error img h w = Inl x) \<and>
          convert e f W_ignore img h w = Inr px \<and> wfilter s1 = W_ignore \<and>
          convert_calls (out s1) = convert_calls (out s) @ [(W_error, img, h, w), (W_ignore, img, h, w)])"
  using assms
  by (auto simp: convert_step_def print_warn_eq print_err_eq cancel_ok bar_redraw_ok Let_def
      split: sum.splits if_splits)

lemma encode_step_calls:
  assumes "0 < all_files g" and "encode_step g e f b px s = (r, s')"
  shows "imsave_calls (out s') = imsave_calls (out s) @ [(W_error, output_dir g, b, px)] \<or>
         (\<exists>x. imsave e f W_error (output_dir g) b px = Inl x) \<and>
         imsave_calls (out s') =
           imsave_calls (out s) @ [(W_error, output_dir g, b, px), (W_ignore, output_dir g, b, px)]"
  using assms
  by (auto simp: encode_step_def print_warn_eq cancel_ok Let_def split: sum.splits if_splits)

lemma resize_step_result:
  "fst (resize_step g e f px h w s) =
     (if 1 < scaling g
      then (case resize e f (wfilter s) px ((h div factor g) * scaling g) ((w div factor g) * scaling g) of
              Inl x \<Rightarrow> Inl (Uncaught x)
            | Inr resized \<Rightarrow> Inr resized)
      else Inr px)"
  by (simp add: resize_step_def Let_def split: sum.splits)

lemma process_decoded_flow:
  assumes g: "0 < all_files g"
    and sh: "shape img = [height, width, channels]"
    and fac: "factor g \<noteq> 0"
    and conv: "convert_step g e f img (int height div factor g) (int width div factor g) s =
                 (Inr (Some pyxelated), s1)"
    and res: "fst (resize_step g e f pyxelated (int height) (int width) s1) = Inr final"
  shows "convert_calls (out (snd (process_decoded g e f img s))) = convert_calls (out s1) \<and>
         resize_calls (out (snd (process_decoded g e f img s))) =
           resize_calls (out s) @
             (if 1 < scaling g
              then [(pyxelated, (int height div factor g) * scaling g,
                     (int width div factor g) * scaling g, resize_call)]
              else []) \<and>
         (imsave_calls (out (snd (process_decoded g e f img s))) =
            imsave_calls (out s) @ [(W_error, output_dir g, stem (name_of (parts f)) @ ''.png'', final)] \<or>
          (\<exists>x. imsave e f W_error (output_dir g) (stem (name_of (parts f)) @ ''.png'') final = Inl x) \<and>
          imsave_calls (out (snd (process_decoded g e f img s))) =
            imsave_calls (out s) @ [(W_error, output_dir g, stem (name_of (parts f)) @ ''.png'', final),
                                    (W_ignore, output_dir g, stem (name_of (parts f)) @ ''.png'', final)])"
proof -
  let ?b = "stem (name_of (parts f)) @ ''.png''"
  obtain s2 where rs: "resize_step g e f pyxelated (int height) (int width) s1 = (Inr final, s2)"
    using res by (cases "resize_step g e f pyxelated (int height) (int width) s1") simp
  obtain r3 s3 where es: "encode_step g e f ?b final s2 = (r3, s3)"
    by (cases "encode_step g e f ?b final s2")
  note t1 = convert_step_trace [OF g conv]
  note t2 = resize_step_trace [OF rs]
  note t3 = encode_step_trace [OF g es]
  note c3 = encode_step_calls [OF g es]
  have o: "out (snd (process_decoded g e f img s)) = out s3"
    by (cases r3) (simp_all add: process_decoded_def sh fac conv rs es read_wall_def)
  have 1: "convert_calls (out s3) = convert_calls (out s1)"
    using t2 t3 by simp
  have 2: "resize_calls (out s3) =
           resize_calls (out s) @
             (if 1 < scaling g
              then [(pyxelated, (int height div factor g) * scaling g,
                     (int width div factor g) * scaling g, resize_call)]
              else [])"
    using t1 t2 t3 by simp
  have 3: "imsave_calls (out s2) = imsave_calls (out s)"
    using t1 t2 by simp
  show ?thesis
    unfolding o using 1 2 c3 unfolding 3 by (intro conjI)
qed

lemma process_image_unreadable:
  assumes "stamps_ok s" and "imread e f (wfilter s) = Inl x" and "kind x \<noteq> ValueError"
  shows "fst (process_image g e f s) = Inl (Uncaught x)"
  using assms
  by (simp add: process_image_def timing_update_eq read_wall_def Let_def split: option.splits)

section \<open>The claims\<close>

text \<open>
  C3. The timing window never holds more than 10 entries, and eviction is first in, first
  out: pushing any durations \<open>ds\<close> onto the empty window leaves the last ten of them in
  their order, so after the 11th push the 1st entry is gone and entries 2 to 11 remain in
  order. The window of a whole run never exceeds ten entries either.
\<close>

theorem timing_window_bounded_fifo:
  "length (foldl push_time [] ds) \<le> 10 \<and>
   foldl push_time [] ds = drop (length ds - 10) ds \<and>
   foldl push_time [] [d1, d2, d3, d4, d5, d6, d7, d8, d9, d10, d11] =
     [d2, d3, d4, d5, d6, d7, d8, d9, d10, d11] \<and>
   length (time_img (snd (main a fs e))) \<le> 10"
proof -
  have 1: "foldl push_time [] ds = drop (length ds - 10) ds" for ds
    using foldl_push_time [of "[]" ds] by simp
  have 2: "length (time_img (snd (main a fs e))) \<le> 10"
    using main_props [of a fs e "fst (main a fs e)" "snd (main a fs e)"] by simp
  have 3: "length (foldl push_time [] ds) \<le> 10"
    unfolding 1 by simp
  have "foldl push_time [] [d1, d2, d3, d4, d5, d6, d7, d8, d9, d10, d11] =
        drop (length [d1, d2, d3, d4, d5, d6, d7, d8, d9, d10, d11] - 10)
          [d1, d2, d3, d4, d5, d6, d7, d8, d9, d10, d11]"
    by (rule 1)
  then have 4: "foldl push_time [] [d1, d2, d3, d4, d5, d6, d7, d8, d9, d10, d11] =
        [d2, d3, d4, d5, d6, d7, d8, d9, d10, d11]"
    by (simp del: foldl_Cons)
  from 3 1 4 2 show ?thesis
    by (intro conjI)
qed

text \<open>
  C5. For a directory given as root, every entry that the listing enumerates either becomes
  a task or is counted once as excluded: the number of tasks plus the exclusion count is
  the number of entries listed, which is the number of files and directories below the
  root; and the count that the resolver leaves is the count at the end of the run.
\<close>

theorem resolver_counts_every_entry:
  assumes "get_file_list (input_parts a) (Directory kids) init_state = (r, s)"
  shows "\<exists>files. r = Inr files \<and> files = filter usable (glob (input_parts a) kids) \<and>
           f_excluded s = length (filter (\<lambda>el. \<not> usable el) (glob (input_parts a) kids)) \<and>
           length files + f_excluded s = length (glob (input_parts a) kids) \<and>
           length (glob (input_parts a) kids) = sum_list (map nodes kids) \<and>
           f_excluded (snd (main a (Directory kids) e)) = f_excluded s"
proof -
  have "f_excluded (snd (main a (Directory kids) e)) = f_excluded s"
    using main_props [of a "Directory kids" e "fst (main a (Directory kids) e)"
        "snd (main a (Directory kids) e)"] assms
    by simp
  then show ?thesis
    using assms sum_length_filter_compl [of usable "glob (input_parts a) kids"]
    by (auto simp: get_file_list_dir length_glob)
qed

theorem resolver_counts_every_entry_witness:
  "\<exists>files. fst (get_file_list (input_parts sample_args) (Directory sample_tree) init_state) = Inr files \<and>
     length files = 2 \<and>
     f_excluded (snd (get_file_list (input_parts sample_args) (Directory sample_tree) init_state)) = 3 \<and>
     length (glob (input_parts sample_args) sample_tree) = 5 \<and>
     f_excluded (snd (main sample_args (Directory sample_tree) sample_env)) = 3"
proof -
  have n: "sum_list (map nodes sample_tree) = 5"
    by (simp add: sample_tree_def)
  have u: "filter usable (glob (input_parts sample_args) sample_tree) =
             [Elm [''in'', ''a.png''] True, Elm [''in'', ''b.txt''] True]"
    by (simp add: sample_args_def sample_tree_def glob_def entry_def usable_def
        startswith_dot_def name_of_def)
  show ?thesis
    using resolver_counts_every_entry [OF prod.collapse [symmetric], of sample_args sample_tree sample_env]
    by (auto simp: n u)
qed

text \<open>
  C10. When the path given as root has a part that begins with a dot, the hidden-path filter,
  which tests every part of each listed path and so the root's own parts too, excludes
  every entry: the resolver returns the empty list, and the run exits with status 1 without
  reading any file.
\<close>

theorem hidden_root_excludes_everything:
  assumes "list_ex startswith_dot (input_parts a)"
  shows "get_file_list (input_parts a) (Directory kids) init_state =
           (Inr [], init_state\<lparr>f_excluded := length (glob (input_parts a) kids)\<rparr>) \<and>
         main a (Directory kids) e =
           (Inl (SysExit 1),
            emit Msg_none_found (init_state\<lparr>f_excluded := length (glob (input_parts a) kids)\<rparr>)) \<and>
         exit_status (fst (main a (Directory kids) e)) = Status 1 \<and>
         imread_calls (out (snd (main a (Directory kids) e))) = [] \<and>
         cur_file (snd (main a (Directory kids) e)) = 0"
proof -
  have 1: "get_file_list (input_parts a) (Directory kids) init_state =
           (Inr [], init_state\<lparr>f_excluded := length (glob (input_parts a) kids)\<rparr>)"
    by (simp add: get_file_list_dir hidden_root_no_usable [OF assms])
  have 2: "main a (Directory kids) e =
           (Inl (SysExit 1),
            emit Msg_none_found (init_state\<lparr>f_excluded := length (glob (input_parts a) kids)\<rparr>))"
    by (simp add: main_def 1 sys_exit_def)
  show ?thesis
    unfolding 2 using 1 by (simp add: exit_status_def)
qed

theorem hidden_root_excludes_everything_witness:
  "list_ex startswith_dot [''.cfg''] \<and>
   main (sample_args\<lparr>input_parts := [''.cfg'']\<rparr>) (Directory sample_tree) sample_env =
     (Inl (SysExit 1), emit Msg_none_found (init_state\<lparr>f_excluded := 5\<rparr>))"
proof -
  have h: "list_ex startswith_dot (input_parts (sample_args\<lparr>input_parts := [''.cfg'']\<rparr>))"
    by (simp add: startswith_dot_def)
  have n: "length (glob [''.cfg''] sample_tree) = 5"
    by (simp add: length_glob sample_tree_def)
  show ?thesis
    using hidden_root_excludes_everything [OF h, of sample_tree sample_env] h
    by (simp add: n)
qed

text \<open>
  C9. For an image that is decoded and converted, at the strict attempt or at the
  permissive retry, to the buffer \<open>pyxelated\<close>: the converter was configured to
  height // factor by width // factor at each attempt; the resize runs if and only if the
  upscale factor is greater than 1, on \<open>pyxelated\<close> and with the target
  (height // factor) * scaling by (width // factor) * scaling, order 0, edge mode, no
  anti-aliasing and the value range preserved; and the buffer that is written afterwards
  is what the resize returned, or \<open>pyxelated\<close> itself when there is no resize. The converter
  and the resize are library code: what they return for these requests is theirs to
  decide. For a source of height 500 and width 1000, factor 5 and scaling 4, with
  libraries that return the size they are asked for, the buffer before the resize is
  100 by 200 and the buffer after it 400 by 800.
\<close>

theorem resize_target_dimensions:
  assumes "0 < all_files g"
    and "shape img = [height, width, channels]"
    and "factor g \<noteq> 0"
    and "convert_step g e f img (int height div factor g) (int width div factor g) s =
           (Inr (Some pyxelated), s1)"
    and "1 < scaling g \<Longrightarrow>
           resize e f (wfilter s1) pyxelated ((int height div factor g) * scaling g)
             ((int width div factor g) * scaling g) = Inr resized"
  shows "(convert e f W_error img (int height div factor g) (int width div factor g) = Inr pyxelated \<and>
          convert_calls (out (snd (process_decoded g e f img s))) =
            convert_calls (out s) @ [(W_error, img, int height div factor g, int width div factor g)] \<or>
          (\<exists>x. convert e f W_error img (int height div factor g) (int width div factor g) = Inl x) \<and>
          convert e f W_ignore img (int height div factor g) (int width div factor g) = Inr pyxelated \<and>
          convert_calls (out (snd (process_decoded g e f img s))) =
            convert_calls (out s) @ [(W_error, img, int height div factor g, int width div factor g),
                                     (W_ignore, img, int height div factor g, int width div factor g)]) \<and>
         resize_calls (out (snd (process_decoded g e f img s))) =
           resize_calls (out s) @
             (if 1 < scaling g
              then [(pyxelated, (int height div factor g) * scaling g,
                     (int width div factor g) * scaling g,
                     \<lparr>anti_aliasing = False, edge_mode = ''edge'', preserve_range = True,
                      interp_order = 0\<rparr>)]
              else []) \<and>
         fst (resize_step g e f pyxelated (int height) (int width) s1) =
           Inr (if 1 < scaling g then resized else pyxelated) \<and>
         (imsave_calls (out (snd (process_decoded g e f img s))) =
            imsave_calls (out s) @
              [(W_error, output_dir g, stem (name_of (parts f)) @ ''.png'',
                if 1 < scaling g then resized else pyxelated)] \<or>
          (\<exists>x. imsave e f W_error (output_dir g) (stem (name_of (parts f)) @ ''.png'')
                 (if 1 < scaling g then resized else pyxelated) = Inl x) \<and>
          imsave_calls (out (snd (process_decoded g e f img s))) =
            imsave_calls (out s) @
              [(W_error, output_dir g, stem (name_of (parts f)) @ ''.png'',
                if 1 < scaling g then resized else pyxelated),
               (W_ignore, output_dir g, stem (name_of (parts f)) @ ''.png'',
                if 1 < scaling g then resized else pyxelated)]) \<and>
         resize_calls (out (snd (resize_step g e f buffer (int height) (int width) s))) =
           resize_calls (out s) @
             (if 1 < scaling g
              then [(buffer, (int height div factor g) * scaling g,
                     (int width div factor g) * scaling g,
                     \<lparr>anti_aliasing = False, edge_mode = ''edge'', preserve_range = True,
                      interp_order = 0\<rparr>)]
              else [])"
proof -
  let ?final = "if 1 < scaling g then resized else pyxelated"
  have r: "fst (resize_step g e f pyxelated (int height) (int width) s1) = Inr ?final"
    using assms(5) by (simp add: resize_step_result)
  note fl = process_decoded_flow [OF assms(1-4) r]
  note cs = convert_step_Some [OF assms(1) assms(4)]
  have 1: "convert e f W_error img (int height div factor g) (int width div factor g) = Inr pyxelated \<and>
          convert_calls (out (snd (process_decoded g e f img s))) =
            convert_calls (out s) @ [(W_error, img, int height div factor g, int width div factor g)] \<or>
          (\<exists>x. convert e f W_error img (int height div factor g) (int width div factor g) = Inl x) \<and>
          convert e f W_ignore img (int height div factor g) (int width div factor g) = Inr pyxelated \<and>
          convert_calls (out (snd (process_decoded g e f img s))) =
            convert_calls (out s) @ [(W_error, img, int height div factor g, int width div factor g),
                                     (W_ignore, img, int height div factor g, int width div factor g)]"
    using cs fl by auto
  have 5: "resize_calls (out (snd (resize_step g e f buffer (int height) (int width) s))) =
           resize_calls (out s) @
             (if 1 < scaling g
              then [(buffer, (int height div factor g) * scaling g,
                     (int width div factor g) * scaling g, resize_call)]
              else [])"
    using resize_step_trace [OF prod.collapse [symmetric], of g e f buffer "int height" "int width" s]
    by simp
  from 1 fl r 5 show ?thesis
    unfolding resize_call_def by (intro conjI) simp_all
qed

text \<open>
  The source of height 500 and width 1000 with factor 5 and scaling 4, once converted at
  the strict attempt and once at the permissive retry, with libraries that return the
  size they are asked for: the converter is configured to 100 by 200, the resize is asked
  for 400 by 800 on the buffer of 100 by 200, and the buffer written is 400 by 800.
\<close>

theorem resize_target_dimensions_witness:
  "convert_calls (out (snd (process_decoded (start_run sample_args 2) sample_env file_a
       (Image [500, 1000, 3] []) init_state))) =
     [(W_error, Image [500, 1000, 3] [], 100, 200)] \<and>
   resize_calls (out (snd (process_decoded (start_run sample_args 2) sample_env file_a
       (Image [500, 1000, 3] []) init_state))) =
     [(Image [100, 200, 3] [], 400, 800,
       \<lparr>anti_aliasing = False, edge_mode = ''edge'', preserve_range = True, interp_order = 0\<rparr>)] \<and>
   imsave_calls (out (snd (process_decoded (start_run sample_args 2) sample_env file_a
       (Image [500, 1000, 3] []) init_state))) =
     [(W_error, ''/tmp/out'', ''a.png'', Image [400, 800, 3] [])] \<and>
   convert_calls (out (snd (process_decoded (start_run sample_args 2) retry_env file_a
       (Image [500, 1000, 3] []) init_state))) =
     [(W_error, Image [500, 1000, 3] [], 100, 200), (W_ignore, Image [500, 1000, 3] [], 100, 200)] \<and>
   resize_calls (out (snd (process_decoded (start_run sample_args 2) retry_env file_a
       (Image [500, 1000, 3] []) init_state))) =
     [(Image [100, 200, 3] [], 400, 800,
       \<lparr>anti_aliasing = False, edge_mode = ''edge'', preserve_range = True, interp_order = 0\<rparr>)] \<and>
   imsave_calls (out (snd (process_decoded (start_run sample_args 2) retry_env file_a
       (Image [500, 1000, 3] []) init_state))) =
     [(W_error, ''/tmp/out'', ''a.png'', Image [400, 800, 3] [])]"
proof -
  let ?g = "start_run sample_args 2" and ?img = "Image [500, 1000, 3] []"
  let ?h = "int 500 div factor ?g" and ?w = "int 1000 div factor ?g"
  have 1: "0 < all_files ?g"
    by simp
  have 2: "shape ?img = [500, 1000, 3]"
    by simp
  have 3: "factor ?g \<noteq> 0"
    by (simp add: start_run_def sample_args_def)
  have v: "factor ?g = 5" "scaling ?g = 4" "output_dir ?g = ''/tmp/out''"
    by (simp_all add: start_run_def sample_args_def)
  have a4: "convert_step ?g sample_env file_a ?img ?h ?w init_state =
      (Inr (Some (Image [100, 200, 3] [])), snd (convert_step ?g sample_env file_a ?img ?h ?w init_state))"
    by (rule prod_eqI) (simp_all add: convert_step_def sample_env_def v Let_def)
  have a5: "resize sample_env file_a (wfilter (snd (convert_step ?g sample_env file_a ?img ?h ?w init_state)))
      (Image [100, 200, 3] []) (?h * scaling ?g) (?w * scaling ?g) = Inr (Image [400, 800, 3] [])"
    by (simp add: sample_env_def v)
  have b4: "convert_step ?g retry_env file_a ?img ?h ?w init_state =
      (Inr (Some (Image [100, 200, 3] [])), snd (convert_step ?g retry_env file_a ?img ?h ?w init_state))"
    by (rule prod_eqI)
      (simp_all add: convert_step_def retry_env_def sample_env_def v Let_def print_warn_eq
        start_run_def sample_args_def rsplit1_def)
  have b5: "resize retry_env file_a (wfilter (snd (convert_step ?g retry_env file_a ?img ?h ?w init_state)))
      (Image [100, 200, 3] []) (?h * scaling ?g) (?w * scaling ?g) = Inr (Image [400, 800, 3] [])"
    by (simp add: retry_env_def sample_env_def v)
  have a: "convert sample_env file_a W_error ?img 100 200 = Inr (Image [100, 200, 3] [])"
    "imsave sample_env file_a W_error ''/tmp/out'' ''a.png'' (Image [400, 800, 3] []) = Inr ()"
    by (simp_all add: sample_env_def)
  have b: "convert retry_env file_a W_error ?img 100 200 = Inl (Exn OtherError ''Palette fit did not converge'')"
    "imsave retry_env file_a W_error ''/tmp/out'' ''a.png'' (Image [400, 800, 3] []) = Inr ()"
    by (simp_all add: retry_env_def sample_env_def)
  have A: "convert_calls (out (snd (process_decoded ?g sample_env file_a ?img init_state))) =
       [(W_error, ?img, 100, 200)] \<and>
     resize_calls (out (snd (process_decoded ?g sample_env file_a ?img init_state))) =
       [(Image [100, 200, 3] [], 400, 800,
         \<lparr>anti_aliasing = False, edge_mode = ''edge'', preserve_range = True, interp_order = 0\<rparr>)] \<and>
     imsave_calls (out (snd (process_decoded ?g sample_env file_a ?img init_state))) =
       [(W_error, ''/tmp/out'', ''a.png'', Image [400, 800, 3] [])]"
    using resize_target_dimensions [OF 1 2 3 a4 a5, of ?img] a
    by (simp add: v stem_a_png)
  have B: "convert_calls (out (snd (process_decoded ?g retry_env file_a ?img init_state))) =
       [(W_error, ?img, 100, 200), (W_ignore, ?img, 100, 200)] \<and>
     resize_calls (out (snd (process_decoded ?g retry_env file_a ?img init_state))) =
       [(Image [100, 200, 3] [], 400, 800,
         \<lparr>anti_aliasing = False, edge_mode = ''edge'', preserve_range = True, interp_order = 0\<rparr>)] \<and>
     imsave_calls (out (snd (process_decoded ?g retry_env file_a ?img init_state))) =
       [(W_error, ''/tmp/out'', ''a.png'', Image [400, 800, 3] [])]"
    using resize_target_dimensions [OF 1 2 3 b4 b5, of ?img] b
    by (simp add: v stem_a_png)
  from A B show ?thesis
    by simp
qed

text \<open>
  C1. The claim says that a conversion which raises a warning on the strict attempt is
  invoked once more. With the output directory given as a bare name such as \<^verbatim>\<open>out\<close>, the
  globals \<^verbatim>\<open>o_path\<close> and \<^verbatim>\<open>o_base\<close> are never assigned (lines 238-242), so \<^verbatim>\<open>print_warn\<close>
  raises \<^verbatim>\<open>NameError\<close> inside the handler: the warning is counted, the conversion has been
  called once only, and the run ends with the uncaught exception.
\<close>

theorem retry_lost_when_output_dir_has_no_slash:
  "fst (main bare_output_args (Directory sample_tree) warning_env) =
     Inl (Uncaught (Exn NameError ''o_path'')) \<and>
   convert_calls (out (snd (main bare_output_args (Directory sample_tree) warning_env))) =
     [(W_error, Image [500, 1000, 3] [], 100, 200)] \<and>
   warn_cnt (snd (main bare_output_args (Directory sample_tree) warning_env)) = 1"
  by (simp add: main_def bare_output_args_def warning_env_def sample_args_def sample_env_def
      get_file_list_dir sample_files Let_def process_image_def timing_update_def read_wall_def
      bar_redraw_ok process_decoded_def convert_step_def print_warn_eq start_run_def rsplit1_def)

text \<open>
  Where \<^verbatim>\<open>print_warn\<close> can print (the exception has no text, warnings are switched off, or
  the output directory's text holds a slash), the strict attempt of the conversion is
  followed by exactly one permissive attempt, the warning is counted once, and the answer
  of the second attempt is the outcome of the step.
\<close>

lemma convert_retried_once:
  assumes "0 < all_files g"
    and "convert e f W_error img h w = Inl x"
    and "kind x \<noteq> KeyboardInterrupt" and "kind x \<noteq> IndexError"
    and "message x = [] \<or> \<not> warnings g \<or> o_names g \<noteq> None"
  shows "convert_calls (out (snd (convert_step g e f img h w s))) =
           convert_calls (out s) @ [(W_error, img, h, w), (W_ignore, img, h, w)] \<and>
         warn_cnt (snd (convert_step g e f img h w s)) = warn_cnt s + 1 \<and>
         fst (convert_step g e f img h w s) =
           (case convert e f W_ignore img h w of
              Inl y \<Rightarrow> Inl (Uncaught y)
            | Inr pyxelated \<Rightarrow> Inr (Some pyxelated))"
  using assms
  by (auto simp: convert_step_def print_warn_eq Let_def split: sum.splits)

theorem convert_retried_once_witness:
  "convert_calls (out (snd (convert_step (start_run sample_args 2) warning_env file_a
       (Image [500, 1000, 3] []) 100 200 init_state))) =
     [(W_error, Image [500, 1000, 3] [], 100, 200), (W_ignore, Image [500, 1000, 3] [], 100, 200)] \<and>
   warn_cnt (snd (convert_step (start_run sample_args 2) warning_env file_a
       (Image [500, 1000, 3] []) 100 200 init_state)) = 1 \<and>
   fst (convert_step (start_run sample_args 2) warning_env file_a
       (Image [500, 1000, 3] []) 100 200 init_state) = Inr (Some (Image [500, 1000, 3] []))"
proof -
  let ?x = "Exn OtherError ''Palette fit did not converge''"
  have 1: "0 < all_files (start_run sample_args 2)"
    by simp
  have 2: "convert warning_env file_a W_error (Image [500, 1000, 3] []) 100 200 = Inl ?x"
    by (simp add: warning_env_def)
  have 3: "kind ?x \<noteq> KeyboardInterrupt" "kind ?x \<noteq> IndexError"
    by simp_all
  have 4: "message ?x = [] \<or> \<not> warnings (start_run sample_args 2) \<or>
           o_names (start_run sample_args 2) \<noteq> None"
    by (simp add: start_run_def sample_args_def rsplit1_def)
  show ?thesis
    using convert_retried_once [OF 1 2 3 4, of init_state]
    by (simp add: warning_env_def)
qed

text \<open>The same for writing the image; there an \<^verbatim>\<open>IndexError\<close> is retried like any other exception.\<close>

lemma encode_retried_once:
  assumes "0 < all_files g"
    and "imsave e f W_error (output_dir g) b px = Inl x"
    and "kind x \<noteq> KeyboardInterrupt"
    and "message x = [] \<or> \<not> warnings g \<or> o_names g \<noteq> None"
  shows "imsave_calls (out (snd (encode_step g e f b px s))) =
           imsave_calls (out s) @ [(W_error, output_dir g, b, px), (W_ignore, output_dir g, b, px)] \<and>
         warn_cnt (snd (encode_step g e f b px s)) = warn_cnt s + 1 \<and>
         fst (encode_step g e f b px s) =
           (case imsave e f W_ignore (output_dir g) b px of
              Inl y \<Rightarrow> Inl (Uncaught y)
            | Inr u \<Rightarrow> Inr ())"
  using assms
  by (auto simp: encode_step_def print_warn_eq Let_def split: sum.splits)

theorem encode_retried_once_witness:
  "imsave_calls (out (snd (encode_step (start_run sample_args 2) save_warning_env file_a ''a.png''
       (Image [400, 800, 3] []) init_state))) =
     [(W_error, ''/tmp/out'', ''a.png'', Image [400, 800, 3] []),
      (W_ignore, ''/tmp/out'', ''a.png'', Image [400, 800, 3] [])] \<and>
   warn_cnt (snd (encode_step (start_run sample_args 2) save_warning_env file_a ''a.png''
       (Image [400, 800, 3] []) init_state)) = 1 \<and>
   fst (encode_step (start_run sample_args 2) save_warning_env file_a ''a.png''
       (Image [400, 800, 3] []) init_state) = Inr ()"
proof -
  let ?x = "Exn OtherError ''is a low contrast image''"
  have 1: "0 < all_files (start_run sample_args 2)"
    by simp
  have 2: "imsave save_warning_env file_a W_error (output_dir (start_run sample_args 2)) ''a.png''
             (Image [400, 800, 3] []) = Inl ?x"
    by (simp add: save_warning_env_def)
  have 3: "kind ?x \<noteq> KeyboardInterrupt"
    by simp
  have 4: "message ?x = [] \<or> \<not> warnings (start_run sample_args 2) \<or>
           o_names (start_run sample_args 2) \<noteq> None"
    by (simp add: start_run_def sample_args_def rsplit1_def)
  show ?thesis
    using encode_retried_once [OF 1 2 3 4, of init_state]
    by (simp add: save_warning_env_def start_run_def sample_args_def)
qed

text \<open>
  C2, as the code has it. When the strict attempt of the conversion raises an
  \<^verbatim>\<open>IndexError\<close>, the conversion is not called again, the error counter goes up by one, the
  completed counter and the warning counter stay, the error is logged if and only if it
  has a text, and the loop goes on with the next file. The statement is about runs in
  which \<^verbatim>\<open>print_err\<close> can print: the error has no text, or the output directory's text
  holds a slash.
\<close>

theorem index_error_fails_the_image_only:
  assumes "0 < all_files g" and "stamps_ok s"
    and "imread e f (wfilter s) = Inr img"
    and "shape img = [height, width, channels]"
    and "factor g \<noteq> 0"
    and "convert e f W_error img (int height div factor g) (int width div factor g) = Inl x"
    and "kind x = IndexError"
    and "message x = [] \<or> o_names g \<noteq> None"
  shows "\<exists>s'. process_image g e f s = (Inr Failed, s') \<and>
           convert_calls (out s') =
             convert_calls (out s) @ [(W_error, img, int height div factor g, int width div factor g)] \<and>
           err_cnt s' = err_cnt s + 1 \<and> warn_cnt s' = warn_cnt s \<and> cur_file s' = cur_file s \<and>
           error_lines (out s') = error_lines (out s) @ (if message x = [] then [] else [(f, message x)]) \<and>
           main_loop g e (f # fs) s = main_loop g e fs s'"
  using assms
  by (auto simp: process_image_def timing_update_eq read_wall_def bar_redraw_ok Let_def
      process_decoded_def convert_step_def print_err_eq split: option.splits)

theorem index_error_fails_the_image_only_witness:
  "\<exists>s'. process_image (start_run sample_args 2) (index_error_env ''index 8 is out of bounds'')
           file_a init_state = (Inr Failed, s') \<and>
     convert_calls (out s') = [(W_error, Image [500, 1000, 3] [], 100, 200)] \<and>
     err_cnt s' = 1 \<and> cur_file s' = 0 \<and>
     error_lines (out s') = [(file_a, ''index 8 is out of bounds'')]"
proof -
  let ?g = "start_run sample_args 2" and ?e = "index_error_env ''index 8 is out of bounds''"
  have 1: "0 < all_files ?g" "stamps_ok init_state"
    by simp_all
  have 2: "imread ?e file_a (wfilter init_state) = Inr (Image [500, 1000, 3] [])"
    by (simp add: index_error_env_def sample_env_def file_a_def)
  have 3: "shape (Image [500, 1000, 3] []) = [500, 1000, 3]" "factor ?g \<noteq> 0"
    by (simp_all add: start_run_def sample_args_def)
  have 4: "convert ?e file_a W_error (Image [500, 1000, 3] []) (int 500 div factor ?g)
             (int 1000 div factor ?g) = Inl (Exn IndexError ''index 8 is out of bounds'')"
    by (simp add: index_error_env_def)
  have 5: "kind (Exn IndexError ''index 8 is out of bounds'') = IndexError"
    "message (Exn IndexError ''index 8 is out of bounds'') = [] \<or> o_names ?g \<noteq> None"
    by (simp_all add: start_run_def sample_args_def rsplit1_def)
  show ?thesis
    using index_error_fails_the_image_only [OF 1 2 3 4 5, of "[]"]
    by (auto simp: start_run_def sample_args_def)
qed

text \<open>
  C2 as stated fails where the error has no text: \<^verbatim>\<open>print_err\<close> prints nothing for an
  exception whose text is empty. The run below counts the error, calls the conversion
  once, goes on to the second file and ends normally, and its trace holds no error line.
\<close>

theorem index_error_without_text_is_not_logged:
  "fst (main sample_args (Directory sample_tree) (index_error_env [])) = Inr () \<and>
   err_cnt (snd (main sample_args (Directory sample_tree) (index_error_env []))) = 1 \<and>
   convert_calls (out (snd (main sample_args (Directory sample_tree) (index_error_env [])))) =
     [(W_error, Image [500, 1000, 3] [], 100, 200)] \<and>
   imread_calls (out (snd (main sample_args (Directory sample_tree) (index_error_env [])))) =
     [file_a, file_b] \<and>
   error_lines (out (snd (main sample_args (Directory sample_tree) (index_error_env [])))) = []"
  by (simp add: main_def index_error_env_def sample_args_def sample_env_def
      get_file_list_dir sample_files Let_def process_image_def timing_update_def read_wall_def
      bar_redraw_ok process_decoded_def convert_step_def print_err_eq start_run_def rsplit1_def
      file_a_def file_b_def)

text \<open>
  C4, as the code has it. The completed counter advances by one when the loop body runs
  to its end and not otherwise; the body is left early exactly on an undecodable file
  (Skipped) or on an \<^verbatim>\<open>IndexError\<close> of the conversion (Failed). After an image that was
  completed, the next pass through the loop pushes that image's elapsed time, end minus
  start, rounded to one decimal place, and reads the clock for the next start only after
  that: the pushed value comes from clock readings \<open>n\<close> and \<open>n + 1\<close>, the next start is
  reading \<open>n + 2\<close>.
\<close>

theorem timing_push_and_completed_counter:
  assumes "0 < all_files g" and "stamps_ok s"
    and "process_image g e f s = (r, s1)"
    and "process_image g e f' s1 = (r', s2)"
  shows "cur_file s1 = (if r = Inr Counted then cur_file s + 1 else cur_file s) \<and>
         (r = Inr Skipped \<longleftrightarrow> (\<exists>x. imread e f (wfilter s) = Inl x \<and> kind x = ValueError)) \<and>
         (r = Inr Failed \<longrightarrow>
            (\<exists>img x h w. imread e f (wfilter s) = Inr img \<and>
               convert e f W_error img h w = Inl x \<and> kind x = IndexError)) \<and>
         (r = Inr Counted \<longrightarrow>
            (\<exists>img b px. imread e f (wfilter s) = Inr img \<and>
               (imsave e f W_error (output_dir g) b px = Inr () \<or>
                imsave e f W_ignore (output_dir g) b px = Inr ())) \<and>
            img_start s1 = Some (wall e (n_wall s)) \<and>
            img_end s1 = Some (wall e (Suc (n_wall s))) \<and>
            time_img s2 =
              push_time (time_img s1) (round1 (float_sub (wall e (Suc (n_wall s))) (wall e (n_wall s)))) \<and>
            img_start s2 = Some (wall e (n_wall s + 2)))"
proof -
  note p1 = process_image_props [OF assms(1,2,3)]
  then have ok: "stamps_ok s1" by simp
  note p2 = process_image_props [OF assms(1) ok assms(4)]
  note t1 = process_image_tags [OF assms(1,2,3)]
  show ?thesis
    using p1 p2 t1 by (auto split: if_splits)
qed

theorem timing_push_and_completed_counter_witness:
  "fst (process_image (start_run sample_args 2) sample_env file_a init_state) = Inr Counted \<and>
   cur_file (snd (process_image (start_run sample_args 2) sample_env file_a init_state)) = 1 \<and>
   time_img (snd (process_image (start_run sample_args 2) sample_env file_b
     (snd (process_image (start_run sample_args 2) sample_env file_a init_state)))) = [3 / 10] \<and>
   wall sample_env 1 - wall sample_env 0 = 26 / 100"
proof -
  let ?g = "start_run sample_args 2"
  let ?p = "process_image ?g sample_env file_a init_state"
  let ?q = "process_image ?g sample_env file_b (snd ?p)"
  have c: "fst ?p = Inr Counted"
    by (simp add: sample_args_def sample_env_def Let_def process_image_def timing_update_def
        read_wall_def bar_redraw_ok process_decoded_def convert_step_def resize_step_def
        encode_step_def start_run_def file_a_def)
  have 1: "0 < all_files ?g" "stamps_ok init_state"
    by simp_all
  have t: "time_img (snd ?p) = []"
    using process_image_props [OF 1 prod.collapse [symmetric], of sample_env file_a] by simp
  have w: "wall sample_env (Suc (n_wall init_state)) = 26 / 100"
    "wall sample_env (n_wall init_state) = 0"
    "wall sample_env 1 - wall sample_env 0 = 26 / 100"
    by (simp_all add: sample_env_def)
  have r: "round1 (float_sub (26 / 100) 0) = 3 / 10"
    by code_simp
  note T = timing_push_and_completed_counter [OF 1 prod.collapse [symmetric] prod.collapse [symmetric],
        of sample_env file_a file_b]
  from T c have "cur_file (snd ?p) = 1"
    by simp
  moreover from T c have "time_img (snd ?q) = push_time (time_img (snd ?p))
      (round1 (float_sub (wall sample_env (Suc (n_wall init_state))) (wall sample_env (n_wall init_state))))"
    by simp
  then have "time_img (snd ?q) = [3 / 10]"
    unfolding t w r by (simp add: push_time_def avg_last_vals_def)
  ultimately show ?thesis
    using c w(3) by simp
qed

text \<open>
  C4 as stated fails on the value pushed: it is the elapsed time rounded to one decimal
  place, not the elapsed time. In the sample run the first image takes 0.26 seconds and
  the window then holds 0.3.
\<close>

theorem pushed_duration_is_rounded:
  "time_img (snd (main sample_args (Directory sample_tree) sample_env)) = [3 / 10] \<and>
   img_start (snd (process_image (start_run sample_args 2) sample_env file_a init_state)) = Some 0 \<and>
   img_end (snd (process_image (start_run sample_args 2) sample_env file_a init_state)) = Some (26 / 100) \<and>
   (26 / 100 - 0 :: rat) \<noteq> 3 / 10"
proof -
  have r: "round1 (float_sub (13 / 50) 0) = 3 / 10"
    by code_simp
  show ?thesis
    by (simp add: main_def sample_args_def sample_env_def get_file_list_dir sample_files
        Let_def process_image_def timing_update_def read_wall_def bar_redraw_ok
        process_decoded_def convert_step_def resize_step_def encode_step_def start_run_def
        file_a_def r push_time_def avg_last_vals_def)
qed

text \<open>
  After a skipped file the time stamps no longer belong to one image. \<^verbatim>\<open>img_end\<close> is only
  assigned when an image is completed, \<^verbatim>\<open>img_start\<close> on every pass: in a run over an
  image, an undecodable file and another image, with a clock that advances by 0.26 seconds
  per reading, the third pass pushes the end of the first image minus the start of the
  skipped file, a negative duration.
\<close>

lemma stale_end_stamp_after_skip:
  "fst (main sample_args (Directory three_files_tree) two_images_env) = Inr () \<and>
   cur_file (snd (main sample_args (Directory three_files_tree) two_images_env)) = 2 \<and>
   time_img (snd (main sample_args (Directory three_files_tree) two_images_env)) = [3 / 10, - (3 / 10)]"
proof -
  have files: "filter usable (glob [''in''] three_files_tree) =
      [Elm [''in'', ''a.png''] True, Elm [''in'', ''b.txt''] True, Elm [''in'', ''c.png''] True]"
    "length (filter (\<lambda>el. \<not> usable el) (glob [''in''] three_files_tree)) = 0"
    by (simp_all add: three_files_tree_def glob_def entry_def usable_def startswith_dot_def name_of_def)
  have r: "round1 (float_sub (13 / 50) 0) = 3 / 10"
    "round1 (float_sub (13 / 50) (13 / 25)) = - (3 / 10)"
    by code_simp+
  show ?thesis
    by (simp add: main_def sample_args_def two_images_env_def sample_env_def get_file_list_dir
        files Let_def process_image_def timing_update_def read_wall_def bar_redraw_ok
        process_decoded_def convert_step_def resize_step_def encode_step_def start_run_def
        r push_time_def avg_last_vals_def)
qed

text \<open>
  C6, as the code has it. For the input directory that holds \<^verbatim>\<open>a.png\<close> (read as a colour
  image, converted, resized and written without complaint), \<^verbatim>\<open>b.txt\<close> (rejected by the
  reader), \<^verbatim>\<open>.hidden/c.png\<close> and \<^verbatim>\<open>d\<close>, the run ends normally with one image completed
  and one file skipped, and with exclusion count 3: the listing also yields the directory
  \<^verbatim>\<open>.hidden\<close> itself, which is counted like \<^verbatim>\<open>.hidden/c.png\<close> and \<^verbatim>\<open>d\<close>.
\<close>

theorem sample_directory_run:
  assumes "input_parts a = [''in'']" and "factor a \<noteq> 0"
    and "imread e file_a W_default = Inr img"
    and "shape img = [height, width, channels]"
    and "convert e file_a W_error img (int height div factor a) (int width div factor a) = Inr pyxelated"
    and "resize e file_a W_error pyxelated ((int height div factor a) * scaling a)
           ((int width div factor a) * scaling a) = Inr resized"
    and "imsave e file_a W_error (output_dir a) ''a.png''
           (if 1 < scaling a then resized else pyxelated) = Inr ()"
    and "imread e file_b W_error = Inl x" and "kind x = ValueError"
  shows "\<exists>s. main a (Directory sample_tree) e = (Inr (), s) \<and>
           cur_file s = 1 \<and> f_excluded s = 3 \<and> warn_cnt s = 0 \<and> err_cnt s = 0 \<and>
           skipped_files (out s) = [file_b] \<and> imread_calls (out s) = [file_a, file_b] \<and>
           imsave_calls (out s) =
             [(W_error, output_dir a, ''a.png'', if 1 < scaling a then resized else pyxelated)]"
  using assms by (rule sample_run)

theorem sample_directory_run_witness:
  "\<exists>s. main sample_args (Directory sample_tree) sample_env = (Inr (), s) \<and>
     cur_file s = 1 \<and> f_excluded s = 3 \<and> skipped_files (out s) = [file_b] \<and>
     imsave_calls (out s) = [(W_error, ''/tmp/out'', ''a.png'', Image [400, 800, 3] [])]"
proof -
  have 1: "input_parts sample_args = [''in'']" "factor sample_args \<noteq> 0"
    by (simp_all add: sample_args_def)
  have 2: "imread sample_env file_a W_default = Inr (Image [500, 1000, 3] [])"
    "shape (Image [500, 1000, 3] []) = [500, 1000, 3]"
    by (simp_all add: sample_env_def file_a_def)
  have 3: "convert sample_env file_a W_error (Image [500, 1000, 3] [])
             (int 500 div factor sample_args) (int 1000 div factor sample_args) =
           Inr (Image [100, 200, 3] [])"
    by (simp add: sample_env_def sample_args_def)
  have 4: "resize sample_env file_a W_error (Image [100, 200, 3] [])
             ((int 500 div factor sample_args) * scaling sample_args)
             ((int 1000 div factor sample_args) * scaling sample_args) =
           Inr (Image [400, 800, 3] [])"
    by (simp add: sample_env_def sample_args_def)
  have 5: "imsave sample_env file_a W_error (output_dir sample_args) ''a.png''
             (if 1 < scaling sample_args then Image [400, 800, 3] [] else Image [100, 200, 3] []) =
           Inr ()"
    by (simp add: sample_env_def)
  have 6: "imread sample_env file_b W_error =
             Inl (Exn ValueError ''Could not find a format to read the file'')"
    "kind (Exn ValueError ''Could not find a format to read the file'') = ValueError"
    by (simp_all add: sample_env_def file_b_def)
  show ?thesis
    using sample_directory_run [OF 1 2 3 4 5 6]
    by (auto simp: sample_args_def)
qed

text \<open>
  C6 as stated fails on the exclusion count: the run of the sample directory ends with one
  image completed and one file skipped, and with exclusion count 3, not 2.
\<close>

theorem sample_directory_excludes_three:
  "fst (main sample_args (Directory sample_tree) sample_env) = Inr () \<and>
   cur_file (snd (main sample_args (Directory sample_tree) sample_env)) = 1 \<and>
   skipped_files (out (snd (main sample_args (Directory sample_tree) sample_env))) = [file_b] \<and>
   f_excluded (snd (main sample_args (Directory sample_tree) sample_env)) = 3 \<and>
   f_excluded (snd (main sample_args (Directory sample_tree) sample_env)) \<noteq> 2"
proof -
  have 1: "input_parts sample_args = [''in'']" "factor sample_args \<noteq> 0"
    by (simp_all add: sample_args_def)
  have 2: "imread sample_env file_a W_default = Inr (Image [500, 1000, 3] [])"
    "shape (Image [500, 1000, 3] []) = [500, 1000, 3]"
    by (simp_all add: sample_env_def file_a_def)
  have 3: "convert sample_env file_a W_error (Image [500, 1000, 3] [])
             (int 500 div factor sample_args) (int 1000 div factor sample_args) =
           Inr (Image [100, 200, 3] [])"
    by (simp add: sample_env_def sample_args_def)
  have 4: "resize sample_env file_a W_error (Image [100, 200, 3] [])
             ((int 500 div factor sample_args) * scaling sample_args)
             ((int 1000 div factor sample_args) * scaling sample_args) =
           Inr (Image [400, 800, 3] [])"
    by (simp add: sample_env_def sample_args_def)
  have 5: "imsave sample_env file_a W_error (output_dir sample_args) ''a.png''
             (if 1 < scaling sample_args then Image [400, 800, 3] [] else Image [100, 200, 3] []) =
           Inr ()"
    by (simp add: sample_env_def)
  have 6: "imread sample_env file_b W_error =
             Inl (Exn ValueError ''Could not find a format to read the file'')"
    "kind (Exn ValueError ''Could not find a format to read the file'') = ValueError"
    by (simp_all add: sample_env_def file_b_def)
  show ?thesis
    using sample_run [OF 1 2 3 4 5 6] by auto
qed

text \<open>
  C7, as the code has it. The process exits with status 0 when the script runs to its
  last line and when the cancellation handler has run, which it does when the strict
  attempt of a conversion or of a write is interrupted. It exits with status 1 exactly
  when the input path gives nothing to work on (a directory without a usable entry, a file
  without a dot in its name, or a path that is neither), which is when the script calls
  \<^verbatim>\<open>sys.exit(1)\<close>, or when an exception other than an interrupt is caught by no handler:
  the script has no handler around the loop, so such an exception ends the run at once,
  whatever files are left. A decode error that is not a \<^verbatim>\<open>ValueError\<close> is one.
\<close>

theorem exit_statuses:
  "(fst (main a fs e) = Inr () \<or> cancelled (out (snd (main a fs e))) \<longrightarrow>
      exit_status (fst (main a fs e)) = Status 0) \<and>
   (exit_status (fst (main a fs e)) = Status 1 \<longleftrightarrow>
      no_usable_input (input_parts a) fs \<or>
      (\<exists>x. fst (main a fs e) = Inl (Uncaught x) \<and> kind x \<noteq> KeyboardInterrupt)) \<and>
   (no_usable_input (input_parts a) fs \<longleftrightarrow> fst (main a fs e) = Inl (SysExit 1)) \<and>
   (0 < all_files g \<and> convert e f W_error img h w = Inl x \<and> kind x = KeyboardInterrupt \<longrightarrow>
      fst (convert_step g e f img h w s) = Inl (SysExit 0) \<and>
      cancelled (out (snd (convert_step g e f img h w s)))) \<and>
   (0 < all_files g \<and> imsave e f W_error (output_dir g) b px = Inl x \<and> kind x = KeyboardInterrupt \<longrightarrow>
      fst (encode_step g e f b px s) = Inl (SysExit 0) \<and>
      cancelled (out (snd (encode_step g e f b px s)))) \<and>
   (stamps_ok s \<and> imread e f (wfilter s) = Inl x \<and> kind x \<noteq> ValueError \<longrightarrow>
      fst (process_image g e f s) = Inl (Uncaught x)) \<and>
   (fst (process_image g e f s) = Inl ab \<longrightarrow>
      main_loop g e (f # fs') s = (Inl ab, snd (process_image g e f s)))"
proof -
  note p = main_props [OF prod.collapse [symmetric], of a fs e]
  have 1: "no_usable_input (input_parts a) fs \<longleftrightarrow> fst (main a fs e) = Inl (SysExit 1)"
    using p by simp
  have 2: "exit_status (fst (main a fs e)) = Status 1 \<longleftrightarrow>
      no_usable_input (input_parts a) fs \<or>
      (\<exists>x. fst (main a fs e) = Inl (Uncaught x) \<and> kind x \<noteq> KeyboardInterrupt)"
    unfolding 1 by (auto simp: exit_status_def split: sum.splits abort.splits if_splits)
  have 3: "exit_status (fst (main a fs e)) = Status 0"
    if "fst (main a fs e) = Inr () \<or> cancelled (out (snd (main a fs e)))"
    using that unfolding main_cancel by (auto simp: exit_status_def)
  have 4: "fst (convert_step g e f img h w s) = Inl (SysExit 0) \<and>
      cancelled (out (snd (convert_step g e f img h w s)))"
    if "0 < all_files g \<and> convert e f W_error img h w = Inl x \<and> kind x = KeyboardInterrupt"
    using convert_step_cancel [OF prod.collapse [symmetric], of g e f img h w s] that by auto
  have 5: "fst (encode_step g e f b px s) = Inl (SysExit 0) \<and>
      cancelled (out (snd (encode_step g e f b px s)))"
    if "0 < all_files g \<and> imsave e f W_error (output_dir g) b px = Inl x \<and> kind x = KeyboardInterrupt"
    using encode_step_cancel [OF prod.collapse [symmetric], of g e f b px s] that by auto
  have 6: "fst (process_image g e f s) = Inl (Uncaught x)"
    if "stamps_ok s \<and> imread e f (wfilter s) = Inl x \<and> kind x \<noteq> ValueError"
    using that by (simp add: process_image_unreadable)
  have 7: "main_loop g e (f # fs') s = (Inl ab, snd (process_image g e f s))"
    if "fst (process_image g e f s) = Inl ab"
    using that by (cases "process_image g e f s") simp
  from 1 2 3 4 5 6 7 show ?thesis
    by blast
qed

text \<open>
  Four runs: a path that does not exist; the sample directory with libraries that work;
  the sample directory with a converter that is interrupted at its strict attempt; and the
  sample directory with a reader that fails with an error other than \<^verbatim>\<open>ValueError\<close>.
\<close>

theorem exit_statuses_witness:
  "no_usable_input (input_parts (sample_args\<lparr>input_parts := [''nowhere'']\<rparr>)) Missing \<and>
   exit_status (fst (main (sample_args\<lparr>input_parts := [''nowhere'']\<rparr>) Missing sample_env)) = Status 1 \<and>
   fst (main sample_args (Directory sample_tree) sample_env) = Inr () \<and>
   exit_status (fst (main sample_args (Directory sample_tree) sample_env)) = Status 0 \<and>
   fst (convert_step (start_run sample_args 2) interrupted_env file_a (Image [500, 1000, 3] [])
         100 200 init_state) = Inl (SysExit 0) \<and>
   cancelled (out (snd (main sample_args (Directory sample_tree) interrupted_env))) \<and>
   exit_status (fst (main sample_args (Directory sample_tree) interrupted_env)) = Status 0 \<and>
   imread_calls (out (snd (main sample_args (Directory sample_tree) interrupted_env))) = [file_a] \<and>
   fst (process_image (start_run sample_args 2) unreadable_env file_a init_state) =
     Inl (Uncaught (Exn OtherError ''Permission denied'')) \<and>
   main_loop (start_run sample_args 2) unreadable_env [file_a, file_b] init_state =
     (Inl (Uncaught (Exn OtherError ''Permission denied'')),
      snd (process_image (start_run sample_args 2) unreadable_env file_a init_state))"
proof -
  let ?nowhere = "sample_args\<lparr>input_parts := [''nowhere'']\<rparr>"
  let ?g = "start_run sample_args 2" and ?img = "Image [500, 1000, 3] []"
  let ?x = "Exn OtherError ''Permission denied''"
  have n: "no_usable_input (input_parts ?nowhere) Missing"
    by (simp add: no_usable_input_def)
  have 1: "exit_status (fst (main ?nowhere Missing sample_env)) = Status 1"
    using exit_statuses [of ?nowhere Missing sample_env] n by simp
  have d: "fst (main sample_args (Directory sample_tree) sample_env) = Inr ()"
    by (simp add: main_def sample_args_def sample_env_def get_file_list_dir
        sample_files Let_def process_image_def timing_update_def read_wall_def bar_redraw_ok
        process_decoded_def convert_step_def resize_step_def encode_step_def start_run_def)
  have 2: "exit_status (fst (main sample_args (Directory sample_tree) sample_env)) = Status 0"
    using exit_statuses [of sample_args "Directory sample_tree" sample_env] d by simp
  have c: "0 < all_files ?g \<and>
      convert interrupted_env file_a W_error ?img 100 200 = Inl (Exn KeyboardInterrupt []) \<and>
      kind (Exn KeyboardInterrupt []) = KeyboardInterrupt"
    by (simp add: interrupted_env_def)
  have 3: "fst (convert_step ?g interrupted_env file_a ?img 100 200 init_state) = Inl (SysExit 0)"
    using exit_statuses [of sample_args "Directory sample_tree" interrupted_env ?g file_a ?img
        100 200 "Exn KeyboardInterrupt []" init_state] c
    by simp
  have m: "cancelled (out (snd (main sample_args (Directory sample_tree) interrupted_env))) \<and>
      imread_calls (out (snd (main sample_args (Directory sample_tree) interrupted_env))) = [file_a]"
    by (simp add: main_def interrupted_env_def sample_args_def sample_env_def get_file_list_dir
        sample_files Let_def process_image_def timing_update_def read_wall_def bar_redraw_ok
        process_decoded_def convert_step_def cancel_ok start_run_def file_a_def)
  have 4: "exit_status (fst (main sample_args (Directory sample_tree) interrupted_env)) = Status 0"
    using exit_statuses [of sample_args "Directory sample_tree" interrupted_env] m by simp
  have u: "stamps_ok init_state \<and> imread unreadable_env file_a (wfilter init_state) = Inl ?x \<and>
      kind ?x \<noteq> ValueError"
    by (simp add: unreadable_env_def stamps_ok_def)
  have 5: "fst (process_image ?g unreadable_env file_a init_state) = Inl (Uncaught ?x)"
    using exit_statuses [of sample_args "Directory sample_tree" unreadable_env ?g file_a ?img
        100 200 ?x init_state] u
    by simp
  have 6: "main_loop ?g unreadable_env [file_a, file_b] init_state =
      (Inl (Uncaught ?x), snd (process_image ?g unreadable_env file_a init_state))"
    using exit_statuses [of sample_args "Directory sample_tree" unreadable_env ?g file_a ?img
        100 200 ?x init_state _ _ "Uncaught ?x" "[file_b]"] 5
    by simp
  from n 1 d 2 3 m 4 5 6 show ?thesis
    by simp
qed

text \<open>
  C7 as stated fails where an exception goes uncaught: the sample directory holds usable
  files, the reader fails on the first of them with an error that is not a
  \<^verbatim>\<open>ValueError\<close>, no handler takes it, and the process exits with status 1.
\<close>

theorem uncaught_error_exits_with_status_1:
  "no_usable_input (input_parts sample_args) (Directory sample_tree) = False \<and>
   fst (main sample_args (Directory sample_tree) unreadable_env) =
     Inl (Uncaught (Exn OtherError ''Permission denied'')) \<and>
   exit_status (fst (main sample_args (Directory sample_tree) unreadable_env)) = Status 1 \<and>
   imread_calls (out (snd (main sample_args (Directory sample_tree) unreadable_env))) = [file_a]"
proof -
  have 1: "no_usable_input (input_parts sample_args) (Directory sample_tree) = False"
    by (simp add: no_usable_input_def sample_args_def sample_files)
  have 2: "fst (main sample_args (Directory sample_tree) unreadable_env) =
       Inl (Uncaught (Exn OtherError ''Permission denied'')) \<and>
     imread_calls (out (snd (main sample_args (Directory sample_tree) unreadable_env))) = [file_a]"
    by (simp add: main_def unreadable_env_def sample_args_def sample_env_def get_file_list_dir
        sample_files Let_def process_image_def timing_update_def read_wall_def start_run_def
        file_a_def)
  from 1 2 show ?thesis
    by (simp add: exit_status_def)
qed

text \<open>
  An interrupt during the permissive retry of the conversion is not taken by the
  cancellation handler: the retry runs inside the handler of the first attempt, where no
  handler of \<^verbatim>\<open>KeyboardInterrupt\<close> is in force. In the sample run the interrupt leaves
  the script uncaught after both attempts, without the cancellation message and without
  \<^verbatim>\<open>sys.exit(0)\<close>.
\<close>

lemma interrupt_during_retry_is_uncaught:
  "fst (main sample_args (Directory sample_tree) interrupted_retry_env) =
     Inl (Uncaught (Exn KeyboardInterrupt [])) \<and>
   exit_status (fst (main sample_args (Directory sample_tree) interrupted_retry_env)) =
     Killed_by_interrupt \<and>
   cancelled (out (snd (main sample_args (Directory sample_tree) interrupted_retry_env))) = False \<and>
   convert_calls (out (snd (main sample_args (Directory sample_tree) interrupted_retry_env))) =
     [(W_error, Image [500, 1000, 3] [], 100, 200), (W_ignore, Image [500, 1000, 3] [], 100, 200)]"
  by (simp add: main_def interrupted_retry_env_def sample_args_def sample_env_def
      get_file_list_dir sample_files Let_def process_image_def timing_update_def read_wall_def
      bar_redraw_ok process_decoded_def convert_step_def print_warn_eq start_run_def rsplit1_def
      exit_status_def)




end
